theory Spec2Isabelle
  imports Complex_Main
begin

section \<open>Python built-ins that the program uses\<close>

text \<open>
  Strings are Isabelle strings: lists of 8-bit characters, one \<open>char\<close> per code point
  (the Latin-1 range of Python's \<open>str\<close>).  Python's unbounded \<open>int\<close> is \<open>int\<close>.
\<close>

text \<open>
  \<open>str.isspace\<close> on one character.  In the Latin-1 range the white-space characters of
  Python 3 are TAB, LF, VT, FF, CR, FS, GS, RS, US, SPACE, NEL (0x85) and NBSP (0xA0).
\<close>

definition isspace :: "char \<Rightarrow> bool" where
  "isspace c = ((of_char c :: nat) \<in> {9, 10, 11, 12, 13, 28, 29, 30, 31, 32, 133, 160})"

text \<open>
  The white space that \<open>int\<close> and \<open>float\<close> skip around a number: the ASCII white space
  of C, and the white space beyond ASCII (which the conversion first turns into spaces).
  The separators FS, GS, RS and US are not among it.
\<close>

definition isspace_number :: "char \<Rightarrow> bool" where
  "isspace_number c = ((of_char c :: nat) \<in> {9, 10, 11, 12, 13, 32, 133, 160})"

definition strip_with :: "(char \<Rightarrow> bool) \<Rightarrow> string \<Rightarrow> string" where
  "strip_with sp s = rev (dropWhile sp (rev (dropWhile sp s)))"

text \<open>\<open>str.strip()\<close>: leading and trailing white space removed.\<close>

definition strip :: "string \<Rightarrow> string" where
  "strip s = strip_with isspace s"

text \<open>The decimal digits \<open>0\<close> .. \<open>9\<close> (the only decimal characters below code point 256).\<close>

definition isdigit :: "char \<Rightarrow> bool" where
  "isdigit c = (48 \<le> (of_char c :: nat) \<and> (of_char c :: nat) \<le> 57)"

definition digit_val :: "char \<Rightarrow> int" where
  "digit_val c = of_char c - 48"

definition digit_char :: "int \<Rightarrow> char" where
  "digit_char d = ''0123456789'' ! nat d"

text \<open>
  The digit part of a Python numeric literal: digits, with single underscores allowed
  between two digits.  \<open>parse_digits cs acc\<close> continues after at least one digit, with
  \<open>acc\<close> the value read so far.
\<close>

fun parse_digits :: "string \<Rightarrow> int \<Rightarrow> int option" where
  "parse_digits [] acc = Some acc"
| "parse_digits (c # cs) acc =
     (if isdigit c then parse_digits cs (10 * acc + digit_val c)
      else if c = CHR ''_'' then
        (case cs of
           [] \<Rightarrow> None
         | d # ds \<Rightarrow> if isdigit d then parse_digits ds (10 * acc + digit_val d) else None)
      else None)"

definition parse_digitpart :: "string \<Rightarrow> int option" where
  "parse_digitpart s =
     (case s of
        [] \<Rightarrow> None
      | c # cs \<Rightarrow> if isdigit c then parse_digits cs (digit_val c) else None)"

text \<open>
  \<open>int(s)\<close> for a string \<open>s\<close>, base 10: surrounding white space is ignored, one sign is
  allowed, then a digit part.  \<open>None\<close> is the \<open>ValueError\<close> that the callers catch.
\<close>

definition py_int :: "string \<Rightarrow> int option" where
  "py_int s =
     (case strip_with isspace_number s of
        [] \<Rightarrow> None
      | c # cs \<Rightarrow>
          if c = CHR ''-'' then map_option uminus (parse_digitpart cs)
          else if c = CHR ''+'' then parse_digitpart cs
          else parse_digitpart (c # cs))"

text \<open>The decimal digits of a non-negative integer, most significant first.\<close>

function int_digits :: "int \<Rightarrow> string" where
  "int_digits n =
     (if n < 10 then [digit_char n] else int_digits (n div 10) @ [digit_char (n mod 10)])"
  by pat_completeness auto
termination
  by (relation "measure nat") auto

declare int_digits.simps [simp del]

text \<open>\<open>str(n)\<close> for an integer.\<close>

definition py_str_int :: "int \<Rightarrow> string" where
  "py_str_int n = (if n < 0 then ''-'' else '''') @ int_digits \<bar>n\<bar>"

text \<open>
  The format specification \<open>04d\<close> of \<open>f"{number:04d}"\<close>: sign-aware zero padding to a
  minimum width of four characters; longer numbers are printed in full.
\<close>

definition format_04d :: "int \<Rightarrow> string" where
  "format_04d n =
     (let sgn = (if n < 0 then ''-'' else ''''); ds = int_digits \<bar>n\<bar>
      in sgn @ replicate (4 - length sgn - length ds) (CHR ''0'') @ ds)"

text \<open>\<open>s.split(sep)\<close> for a one-character separator: never empty.\<close>

fun split_on :: "char \<Rightarrow> string \<Rightarrow> string list" where
  "split_on sep [] = [[]]"
| "split_on sep (c # cs) =
     (if c = sep then [] # split_on sep cs
      else (case split_on sep cs of
              [] \<Rightarrow> [[c]]
            | p # ps \<Rightarrow> (c # p) # ps))"

section \<open>Binary floating point\<close>

text \<open>
  Python's \<open>float\<close> is IEEE 754 binary64.  A finite float is modelled by the rational
  number it denotes; the sign of a zero is not modelled (\<open>-0.0\<close> and \<open>0.0\<close> compare equal
  in Python and in SQLite and are the one value \<open>Finite 0\<close>).
\<close>

datatype pyfloat = Finite rat | PosInf | NegInf | NaN

text \<open>The number of binary digits of a positive integer.\<close>

function bitlen :: "int \<Rightarrow> int" where
  "bitlen n = (if n \<le> 0 then 0 else 1 + bitlen (n div 2))"
  by pat_completeness auto
termination
  by (relation "measure nat") auto

declare bitlen.simps [simp del]

definition pow2 :: "int \<Rightarrow> rat" where
  "pow2 e = (if 0 \<le> e then 2 ^ nat e else 1 / 2 ^ nat (- e))"

text \<open>\<open>floor_log2 a\<close> is the \<open>e\<close> with \<open>2^e \<le> a < 2^(e+1)\<close>, for a positive rational \<open>a\<close>.\<close>

definition floor_log2 :: "rat \<Rightarrow> int" where
  "floor_log2 a =
     (let (p, q) = quotient_of a;
          e0 = bitlen p - bitlen q
      in if pow2 e0 \<le> a then e0 else e0 - 1)"

text \<open>Rounding to the nearest integer, ties to the even one.\<close>

definition round_half_even :: "rat \<Rightarrow> int" where
  "round_half_even x =
     (let f = \<lfloor>x\<rfloor>; d = x - of_int f
      in if d < 1 / 2 then f
         else if 1 / 2 < d then f + 1
         else if even f then f else f + 1)"

text \<open>The least magnitude that rounds to an infinity, \<open>2^1024\<close>.\<close>

definition binary64_limit :: rat where
  "binary64_limit = 2 ^ 1024"

text \<open>
  The binary64 value nearest to a rational number (round to nearest, ties to even):
  53 significant bits, least exponent \<open>-1074\<close> (subnormal numbers), overflow to an
  infinity from \<open>2^1024\<close> on.
\<close>

definition round_binary64 :: "rat \<Rightarrow> pyfloat" where
  "round_binary64 q =
     (if q = 0 then Finite 0
      else
        let a = \<bar>q\<bar>;
            p = max (floor_log2 a - 52) (- 1074);
            r = of_int (round_half_even (a / pow2 p)) * pow2 p
        in if binary64_limit \<le> r then (if 0 < q then PosInf else NegInf)
           else Finite (if 0 < q then r else - r))"

text \<open>
  \<open>float(n)\<close> for an integer, as \<open>rate * quantity\<close> converts its integer operand:
  correctly rounded, and \<open>OverflowError\<close> (\<open>None\<close>) when the integer is too large.
\<close>

definition float_of_int :: "int \<Rightarrow> pyfloat option" where
  "float_of_int n =
     (case round_binary64 (of_int n) of
        Finite r \<Rightarrow> Some (Finite r)
      | _ \<Rightarrow> None)"

text \<open>The product of two floats (IEEE 754 multiplication).\<close>

fun float_mul :: "pyfloat \<Rightarrow> pyfloat \<Rightarrow> pyfloat" where
  "float_mul NaN _ = NaN"
| "float_mul _ NaN = NaN"
| "float_mul (Finite a) (Finite b) = round_binary64 (a * b)"
| "float_mul (Finite a) PosInf = (if a = 0 then NaN else if 0 < a then PosInf else NegInf)"
| "float_mul (Finite a) NegInf = (if a = 0 then NaN else if 0 < a then NegInf else PosInf)"
| "float_mul PosInf (Finite b) = (if b = 0 then NaN else if 0 < b then PosInf else NegInf)"
| "float_mul NegInf (Finite b) = (if b = 0 then NaN else if 0 < b then NegInf else PosInf)"
| "float_mul PosInf PosInf = PosInf"
| "float_mul PosInf NegInf = NegInf"
| "float_mul NegInf PosInf = NegInf"
| "float_mul NegInf NegInf = PosInf"

text \<open>
  \<open>rate * quantity\<close> with a float \<open>rate\<close> and an integer \<open>quantity\<close>: the integer is
  converted first (\<open>OverflowError\<close> when it is too large), then the floats are multiplied.
\<close>

definition float_mul_int :: "pyfloat \<Rightarrow> int \<Rightarrow> pyfloat option" where
  "float_mul_int x n = map_option (float_mul x) (float_of_int n)"

text \<open>
  The longest prefix of a string that is a digit part (digits, single underscores between
  two digits): its digits, and the rest of the string.
\<close>

fun digitpart_span :: "string \<Rightarrow> string \<times> string" where
  "digitpart_span [] = ([], [])"
| "digitpart_span [c] = (if isdigit c then ([c], []) else ([], [c]))"
| "digitpart_span (c # d # cs) =
     (if isdigit c \<and> d = CHR ''_'' \<and> (case cs of [] \<Rightarrow> False | x # _ \<Rightarrow> isdigit x)
      then (case digitpart_span cs of (ds, r) \<Rightarrow> (c # ds, r))
      else if isdigit c
      then (case digitpart_span (d # cs) of (ds, r) \<Rightarrow> (c # ds, r))
      else ([], c # d # cs))"

definition digits_val :: "string \<Rightarrow> int" where
  "digits_val ds = foldl (\<lambda>a c. 10 * a + digit_val c) 0 ds"

definition pow10 :: "int \<Rightarrow> rat" where
  "pow10 e = (if 0 \<le> e then 10 ^ nat e else 1 / 10 ^ nat (- e))"

text \<open>The exponent of a float literal: \<open>e\<close> or \<open>E\<close>, an optional sign, a digit part.\<close>

definition parse_exponent :: "string \<Rightarrow> int option" where
  "parse_exponent s =
     (case s of
        [] \<Rightarrow> Some 0
      | c # cs \<Rightarrow>
          if c = CHR ''e'' \<or> c = CHR ''E'' then
            (let (neg, t) =
                   (case cs of
                      [] \<Rightarrow> (False, [])
                    | x # xs \<Rightarrow>
                        if x = CHR ''-'' then (True, xs)
                        else if x = CHR ''+'' then (False, xs) else (False, x # xs))
             in case digitpart_span t of
                  (ds, r) \<Rightarrow>
                    if ds = [] \<or> r \<noteq> [] then None
                    else Some (if neg then - digits_val ds else digits_val ds))
          else None)"

text \<open>
  An unsigned decimal float literal, \<open>[digits] . digits [exponent]\<close> or
  \<open>digits [.] [exponent]\<close>: its exact value.
\<close>

definition parse_decimal :: "string \<Rightarrow> rat option" where
  "parse_decimal s =
     (case digitpart_span s of
        (ip, r1) \<Rightarrow>
          (case (case r1 of
                   [] \<Rightarrow> Some ([], [])
                 | c # cs \<Rightarrow>
                     if c = CHR ''.'' then
                       (case digitpart_span cs of
                          (fp, r2) \<Rightarrow> if ip = [] \<and> fp = [] then None else Some (fp, r2))
                     else if ip = [] then None else Some ([], c # cs)) of
             None \<Rightarrow> None
           | Some (fp, r2) \<Rightarrow>
               if ip = [] \<and> fp = [] then None
               else
                 (case parse_exponent r2 of
                    None \<Rightarrow> None
                  | Some e \<Rightarrow>
                      Some (of_int (digits_val (ip @ fp)) * pow10 (e - int (length fp))))))"

definition lower :: "char \<Rightarrow> char" where
  "lower c =
     (if 65 \<le> (of_char c :: nat) \<and> (of_char c :: nat) \<le> 90
      then char_of ((of_char c :: nat) + 32) else c)"

text \<open>
  \<open>float(s)\<close> for a string: surrounding white space is ignored, one sign is allowed, then
  \<open>inf\<close>, \<open>infinity\<close> or \<open>nan\<close> in any letter case, or a decimal literal, which is rounded
  to the nearest float.  \<open>None\<close> is the \<open>ValueError\<close> that \<open>prompt_float\<close> catches.
\<close>

definition py_float :: "string \<Rightarrow> pyfloat option" where
  "py_float s =
     (let t = strip_with isspace_number s;
          (neg, u) =
            (case t of
               [] \<Rightarrow> (False, [])
             | c # cs \<Rightarrow>
                 if c = CHR ''-'' then (True, cs)
                 else if c = CHR ''+'' then (False, cs) else (False, c # cs));
          w = map lower u
      in if w = ''inf'' \<or> w = ''infinity'' then Some (if neg then NegInf else PosInf)
         else if w = ''nan'' then Some NaN
         else map_option (\<lambda>v. round_binary64 (if neg then - v else v)) (parse_decimal u))"

section \<open>The database\<close>

text \<open>
  The tables of \<open>DatabaseManager.create_tables\<close>, each a list of rows in storage order,
  with the columns that the hire, invoice and supplier-payment modules read or write.  Of
  \<open>tblDriver\<close>, \<open>tblSupplier\<close> and \<open>tblCustomer\<close> only the primary keys are kept.
  A column is optional where the program itself stores \<open>NULL\<close> (\<open>SupplierID\<close> and
  \<open>EndDate\<close> of a hire); the other text and number columns always hold a value, since the
  program writes one.  The \<open>seq\<close> fields are the counters that SQLite keeps for
  \<open>AUTOINCREMENT\<close> keys.  Keys are unbounded integers here (SQLite's end at \<open>2^63 - 1\<close>).
  Foreign keys are declared but not enforced (the connection never switches them on).
  Every statement is committed at once, so the database after a failed statement is the
  one before it.
\<close>

datatype exn = EOFError | OverflowError | IntegrityError

record fleet =
  f_FleetID :: string
  f_Ownership :: string

record hire =
  h_HireID :: int
  h_FleetID :: string
  h_DriverID :: int
  h_CustomerID :: int
  h_SupplierID :: "int option"
  h_HireType :: string
  h_StartDate :: string
  h_EndDate :: "string option"
  h_Rate :: pyfloat
  h_Quantity :: int
  h_TotalAmount :: pyfloat
  h_Status :: string

record invoice =
  i_InvoiceID :: int
  i_InvoiceNo :: string
  i_HireID :: int
  i_CustomerID :: int
  i_InvoiceDate :: string
  i_Amount :: pyfloat
  i_PaymentStatus :: string

record payment =
  p_PaymentID :: int
  p_SupplierID :: int
  p_HireID :: int
  p_PaymentDate :: string
  p_Amount :: pyfloat
  p_PaymentStatus :: string

record db =
  tblFleet :: "fleet list"
  tblDriver :: "int list"
  tblSupplier :: "int list"
  tblCustomer :: "int list"
  tblHire :: "hire list"
  tblCustomerInvoice :: "invoice list"
  tblSupplierPayment :: "payment list"
  seqHire :: int
  seqCustomerInvoice :: int
  seqSupplierPayment :: int

text \<open>
  An integer parameter of a statement must fit SQLite's 64-bit \<open>INTEGER\<close>; the
  \<open>sqlite3\<close> module raises \<open>OverflowError\<close> otherwise.
\<close>

definition sqlite_int :: "int \<Rightarrow> bool" where
  "sqlite_int n = (- (2 ^ 63) \<le> n \<and> n < 2 ^ 63)"

text \<open>The key that \<open>AUTOINCREMENT\<close> gives a new row: one more than every key used so far.\<close>

definition next_rowid :: "int list \<Rightarrow> int \<Rightarrow> int" where
  "next_rowid ids seq = fold max ids seq + 1"

text \<open>
  SQLite's \<open>LIKE\<close>: \<open>%\<close> matches any run of characters, \<open>_\<close> any one character, and
  every other pattern character matches itself, without regard to the case of ASCII letters.
\<close>

fun like :: "string \<Rightarrow> string \<Rightarrow> bool" where
  "like [] s = (s = [])"
| "like (p # ps) [] = (p = CHR ''%'' \<and> like ps [])"
| "like (p # ps) (c # cs) =
     (if p = CHR ''%'' then like ps (c # cs) \<or> like (p # ps) cs
      else (p = CHR ''_'' \<or> lower p = lower c) \<and> like ps cs)"

section \<open>Helper utilities\<close>

text \<open>
  The operator's typing is a list of lines, one per call of \<open>input\<close>; \<open>input\<close> raises
  \<open>EOFError\<close> when the lines have run out.  A function that reads returns what it read and
  the lines that are left.
\<close>

text \<open>\<open>prompt\<close>: an empty line gives the default when there is one; else the line, stripped.\<close>

definition prompt_value :: "string option \<Rightarrow> string \<Rightarrow> string" where
  "prompt_value dflt l =
     (case dflt of
        None \<Rightarrow> strip l
      | Some d \<Rightarrow> if l = [] then d else strip l)"

definition prompt :: "string option \<Rightarrow> string list \<Rightarrow> exn + string \<times> string list" where
  "prompt dflt inp =
     (case inp of
        [] \<Rightarrow> Inl EOFError
      | l # rest \<Rightarrow> Inr (prompt_value dflt l, rest))"

text \<open>\<open>prompt_float\<close> (always called without a default here): asks again until a line parses.\<close>

fun prompt_float :: "string list \<Rightarrow> exn + pyfloat \<times> string list" where
  "prompt_float [] = Inl EOFError"
| "prompt_float (l # rest) =
     (case py_float (prompt_value None l) of
        Some x \<Rightarrow> Inr (x, rest)
      | None \<Rightarrow> prompt_float rest)"

text \<open>\<open>prompt_int\<close>: asks again until a line parses; the default is offered as \<open>str(default)\<close>.\<close>

fun prompt_int :: "int option \<Rightarrow> string list \<Rightarrow> exn + int \<times> string list" where
  "prompt_int dflt [] = Inl EOFError"
| "prompt_int dflt (l # rest) =
     (case py_int (prompt_value (map_option py_str_int dflt) l) of
        Some n \<Rightarrow> Inr (n, rest)
      | None \<Rightarrow> prompt_int dflt rest)"

text \<open>\<open>record_exists\<close>, given the key column of the table.\<close>

definition record_exists :: "'k list \<Rightarrow> 'k \<Rightarrow> bool" where
  "record_exists keys v = (v \<in> set keys)"

text \<open>
  \<open>choose_from_table\<close>, given the key column of the table: \<open>Inr\<close> the chosen key, or
  \<open>Inl\<close> the message printed before \<open>None\<close> is returned.  The choice is read with a bare
  \<open>input\<close> and is a parameter of the query of \<open>record_exists\<close>.
\<close>

definition choose_from_table ::
  "int list \<Rightarrow> string list \<Rightarrow> exn + (string + int) \<times> string list" where
  "choose_from_table ids inp =
     (if ids = [] then Inr (Inl ''No records found.'', inp)
      else
        (case inp of
           [] \<Rightarrow> Inl EOFError
         | l # rest \<Rightarrow>
             (case py_int l of
                None \<Rightarrow> Inr (Inl ''Invalid choice.'', rest)
              | Some choice \<Rightarrow>
                  if \<not> sqlite_int choice then Inl OverflowError
                  else if \<not> record_exists ids choice then Inr (Inl ''ID does not exist.'', rest)
                  else Inr (Inr choice, rest))))"

section \<open>Operations\<close>

text \<open>
  An operation takes the database and the lines still to be typed, and returns what it
  reported, the database it leaves and the lines left.  Of what a function prints, the
  closing message is kept: \<open>Printed\<close> is that message, \<open>HireCreated\<close> and
  \<open>InvoiceCreated\<close> are the two messages that carry a value, and \<open>Listed\<close> stands for
  the rows that a search prints (or \<open>No matches.\<close> when there is none).  \<open>Raised\<close> is an
  exception that nothing catches: the process ends, and the database is as the last commit
  left it.
\<close>

datatype outcome =
  Printed string
| HireCreated pyfloat
| InvoiceCreated string
| Listed "hire list"
| Raised exn

type_synonym result = "outcome \<times> db \<times> string list"

text \<open>Sequencing: an exception of a read ends the operation.\<close>

definition after :: "exn + 'a \<times> string list \<Rightarrow> db \<Rightarrow> ('a \<Rightarrow> string list \<Rightarrow> result) \<Rightarrow> result" where
  "after r db k = (case r of Inl e \<Rightarrow> (Raised e, db, []) | Inr (v, rest) \<Rightarrow> k v rest)"

text \<open>
  The questions of a longer dialogue: it either ends early, with what was reported and
  the lines left, or yields the answers.
\<close>

datatype 'a asked = Ended outcome "string list" | Answered 'a "string list"

definition ask :: "exn + 'a \<times> string list \<Rightarrow> ('a \<Rightarrow> string list \<Rightarrow> 'b asked) \<Rightarrow> 'b asked" where
  "ask r k = (case r of Inl e \<Rightarrow> Ended (Raised e) [] | Inr (v, rest) \<Rightarrow> k v rest)"

text \<open>The same for \<open>choose_from_table\<close>: on \<open>None\<close> the caller returns at once.\<close>

definition ask_choice ::
  "exn + (string + int) \<times> string list \<Rightarrow> (int \<Rightarrow> string list \<Rightarrow> 'b asked) \<Rightarrow> 'b asked" where
  "ask_choice r k =
     (case r of
        Inl e \<Rightarrow> Ended (Raised e) []
      | Inr (Inl msg, rest) \<Rightarrow> Ended (Printed msg) rest
      | Inr (Inr v, rest) \<Rightarrow> k v rest)"

subsection \<open>Hire module\<close>

definition valid_hire_types :: "string list" where
  "valid_hire_types = [''Daily'', ''Weekly'', ''Monthly'', ''Trip'']"

text \<open>
  \<open>INSERT INTO tblHire\<close>.  Integer parameters outside 64 bits raise \<open>OverflowError\<close>
  when they are bound.  The statement fails with \<open>IntegrityError\<close> when the \<open>CHECK\<close> on
  \<open>HireType\<close> fails or a \<open>NOT NULL\<close> column gets \<open>NULL\<close>: SQLite stores a NaN as
  \<open>NULL\<close>, and \<open>Rate\<close> and \<open>TotalAmount\<close> are \<open>REAL NOT NULL\<close>.
\<close>

definition insert_hire ::
  "db \<Rightarrow> string \<Rightarrow> int \<Rightarrow> int \<Rightarrow> int option \<Rightarrow> string \<Rightarrow> string \<Rightarrow> string option \<Rightarrow>
   pyfloat \<Rightarrow> int \<Rightarrow> pyfloat \<Rightarrow> string \<Rightarrow> exn + db" where
  "insert_hire db fleet_id driver_id customer_id supplier_id hire_type start_date end_date
     rate quantity total_amount status =
     (if \<not> (sqlite_int driver_id \<and> sqlite_int customer_id \<and>
             (case supplier_id of None \<Rightarrow> True | Some s \<Rightarrow> sqlite_int s) \<and> sqlite_int quantity)
      then Inl OverflowError
      else if hire_type \<notin> set valid_hire_types \<or> rate = NaN \<or> total_amount = NaN
      then Inl IntegrityError
      else
        let new_id = next_rowid (map h_HireID (tblHire db)) (seqHire db)
        in Inr (db\<lparr>tblHire := tblHire db @
                  [\<lparr>h_HireID = new_id, h_FleetID = fleet_id, h_DriverID = driver_id,
                    h_CustomerID = customer_id, h_SupplierID = supplier_id,
                    h_HireType = hire_type, h_StartDate = start_date, h_EndDate = end_date,
                    h_Rate = rate, h_Quantity = quantity, h_TotalAmount = total_amount,
                    h_Status = status\<rparr>],
                seqHire := new_id\<rparr>))"

text \<open>
  Lines 504 to 518 of \<open>add_hire\<close>: the supplier of the hire.  For a rented-in asset it is
  chosen from the supplier table; otherwise an identifier may be typed, and it is only parsed.
\<close>

definition hire_supplier :: "db \<Rightarrow> string \<Rightarrow> string list \<Rightarrow> int option asked" where
  "hire_supplier db fleet_id inp =
     (let ownership_row = map f_Ownership (filter (\<lambda>r. f_FleetID r = fleet_id) (tblFleet db));
          require_supplier =
            (case ownership_row of [] \<Rightarrow> False | ownership # _ \<Rightarrow> ownership = ''Rented-in'')
      in if require_supplier then
           ask_choice (choose_from_table (tblSupplier db) inp) (\<lambda>supplier_id inp.
             Answered (Some supplier_id) inp)
         else
           ask (prompt None inp) (\<lambda>supplier_input inp.
             if supplier_input \<noteq> [] then
               (case py_int supplier_input of
                  None \<Rightarrow> Ended (Printed ''Invalid supplier ID.'') inp
                | Some supplier_id \<Rightarrow> Answered (Some supplier_id) inp)
             else Answered None inp))"

text \<open>What \<open>add_hire\<close> has collected when it reaches its \<open>INSERT\<close>.\<close>

record hire_answers =
  a_fleet_id :: string
  a_driver_id :: int
  a_customer_id :: int
  a_supplier_id :: "int option"
  a_hire_type :: string
  a_start_date :: string
  a_end_date :: string
  a_rate :: pyfloat
  a_quantity :: int

text \<open>Lines 494 to 524 of \<open>add_hire\<close>: the reference checks and the questions.\<close>

definition ask_hire :: "db \<Rightarrow> string list \<Rightarrow> hire_answers asked" where
  "ask_hire db inp =
     ask (prompt None inp) (\<lambda>fleet_id inp.
       if \<not> record_exists (map f_FleetID (tblFleet db)) fleet_id
       then Ended (Printed ''Fleet not found.'') inp
       else
     ask_choice (choose_from_table (tblDriver db) inp) (\<lambda>driver_id inp.
     ask_choice (choose_from_table (tblCustomer db) inp) (\<lambda>customer_id inp.
       case hire_supplier db fleet_id inp of
         Ended out inp \<Rightarrow> Ended out inp
       | Answered supplier_id inp \<Rightarrow>
     ask (prompt None inp) (\<lambda>hire_type inp.
     ask (prompt None inp) (\<lambda>start_date inp.
     ask (prompt (Some []) inp) (\<lambda>end_date inp.
     ask (prompt_float inp) (\<lambda>rate inp.
     ask (prompt_int (Some 1) inp) (\<lambda>quantity inp.
       Answered
         \<lparr>a_fleet_id = fleet_id, a_driver_id = driver_id, a_customer_id = customer_id,
          a_supplier_id = supplier_id, a_hire_type = hire_type, a_start_date = start_date,
          a_end_date = end_date, a_rate = rate, a_quantity = quantity\<rparr> inp))))))))"

text \<open>
  \<open>add_hire\<close>: after the questions, lines 525 to 534 compute the total, insert the row with
  status \<open>Open\<close> and report the total.
\<close>

definition add_hire :: "db \<Rightarrow> string list \<Rightarrow> result" where
  "add_hire db inp =
     (case ask_hire db inp of
        Ended out rest \<Rightarrow> (out, db, rest)
      | Answered a rest \<Rightarrow>
          (case float_mul_int (a_rate a) (a_quantity a) of
             None \<Rightarrow> (Raised OverflowError, db, [])
           | Some total_amount \<Rightarrow>
               (case insert_hire db (a_fleet_id a) (a_driver_id a) (a_customer_id a)
                       (a_supplier_id a) (a_hire_type a) (a_start_date a)
                       (if a_end_date a = [] then None else Some (a_end_date a))
                       (a_rate a) (a_quantity a) total_amount ''Open'' of
                  Inl e \<Rightarrow> (Raised e, db, [])
                | Inr db' \<Rightarrow> (HireCreated total_amount, db', rest))))"

definition update_hire_status :: "db \<Rightarrow> string list \<Rightarrow> result" where
  "update_hire_status db inp =
     after (prompt_int None inp) db (\<lambda>hire_id inp.
       if \<not> sqlite_int hire_id then (Raised OverflowError, db, [])
       else if \<not> record_exists (map h_HireID (tblHire db)) hire_id
       then (Printed ''Hire not found.'', db, inp)
       else
     after (prompt None inp) db (\<lambda>status inp.
       (Printed ''Hire status updated.'',
        db\<lparr>tblHire :=
             map (\<lambda>h. if h_HireID h = hire_id then h\<lparr>h_Status := status\<rparr> else h) (tblHire db)\<rparr>,
        inp)))"

definition search_hires :: "db \<Rightarrow> string list \<Rightarrow> result" where
  "search_hires db inp =
     after (prompt None inp) db (\<lambda>status inp.
       (Listed (filter (\<lambda>h. like (''%'' @ status @ ''%'') (h_Status h)) (tblHire db)), db, inp))"

subsection \<open>Invoice module\<close>

text \<open>\<open>SELECT InvoiceNo FROM tblCustomerInvoice ORDER BY InvoiceID DESC LIMIT 1\<close>.\<close>

fun latest_invoice :: "invoice list \<Rightarrow> invoice option" where
  "latest_invoice [] = None"
| "latest_invoice (r # rs) =
     (case latest_invoice rs of
        None \<Rightarrow> Some r
      | Some m \<Rightarrow> if i_InvoiceID r < i_InvoiceID m then Some m else Some r)"

definition generate_invoice_no :: "db \<Rightarrow> string" where
  "generate_invoice_no db =
     (case latest_invoice (tblCustomerInvoice db) of
        None \<Rightarrow> ''INV-0001''
      | Some row \<Rightarrow>
          (let number =
                 (case py_int (last (split_on (CHR ''-'') (i_InvoiceNo row))) of
                    Some n \<Rightarrow> n + 1
                  | None \<Rightarrow> 1)
           in ''INV-'' @ format_04d number))"

text \<open>
  \<open>INSERT INTO tblCustomerInvoice\<close>: \<open>InvoiceNo\<close> is \<open>UNIQUE\<close>, \<open>Amount\<close> is
  \<open>REAL NOT NULL\<close>.
\<close>

definition insert_invoice ::
  "db \<Rightarrow> string \<Rightarrow> int \<Rightarrow> int \<Rightarrow> string \<Rightarrow> pyfloat \<Rightarrow> string \<Rightarrow> exn + db" where
  "insert_invoice db invoice_no hire_id customer_id invoice_date amount payment_status =
     (if \<not> (sqlite_int hire_id \<and> sqlite_int customer_id) then Inl OverflowError
      else if invoice_no \<in> set (map i_InvoiceNo (tblCustomerInvoice db)) \<or> amount = NaN
      then Inl IntegrityError
      else
        let new_id = next_rowid (map i_InvoiceID (tblCustomerInvoice db)) (seqCustomerInvoice db)
        in Inr (db\<lparr>tblCustomerInvoice := tblCustomerInvoice db @
                  [\<lparr>i_InvoiceID = new_id, i_InvoiceNo = invoice_no, i_HireID = hire_id,
                    i_CustomerID = customer_id, i_InvoiceDate = invoice_date,
                    i_Amount = amount, i_PaymentStatus = payment_status\<rparr>],
                seqCustomerInvoice := new_id\<rparr>))"

definition create_invoice_from_hire :: "db \<Rightarrow> string list \<Rightarrow> result" where
  "create_invoice_from_hire db inp =
     (let hires = filter (\<lambda>h. h_Status h = ''Completed'') (tblHire db)
      in if hires = [] then (Printed ''No completed hires available.'', db, inp)
         else
     after (prompt_int None inp) db (\<lambda>hire_id inp.
       case find (\<lambda>h. h_HireID h = hire_id) hires of
         None \<Rightarrow> (Printed ''Invalid Hire ID.'', db, inp)
       | Some selected \<Rightarrow>
           (let invoice_no = generate_invoice_no db
            in
     after (prompt None inp) db (\<lambda>invoice_date inp.
       case insert_invoice db invoice_no hire_id (h_CustomerID selected) invoice_date
              (h_TotalAmount selected) ''Unpaid'' of
         Inl e \<Rightarrow> (Raised e, db, [])
       | Inr db' \<Rightarrow> (InvoiceCreated invoice_no, db', inp)))))"

definition update_invoice_status :: "db \<Rightarrow> string list \<Rightarrow> result" where
  "update_invoice_status db inp =
     after (prompt_int None inp) db (\<lambda>invoice_id inp.
       if \<not> sqlite_int invoice_id then (Raised OverflowError, db, [])
       else if \<not> record_exists (map i_InvoiceID (tblCustomerInvoice db)) invoice_id
       then (Printed ''Invoice not found.'', db, inp)
       else
     after (prompt None inp) db (\<lambda>status inp.
       (Printed ''Invoice status updated.'',
        db\<lparr>tblCustomerInvoice :=
             map (\<lambda>i. if i_InvoiceID i = invoice_id then i\<lparr>i_PaymentStatus := status\<rparr> else i)
               (tblCustomerInvoice db)\<rparr>,
        inp)))"

subsection \<open>Supplier payments module\<close>

text \<open>\<open>INSERT INTO tblSupplierPayment\<close>: \<open>Amount\<close> is \<open>REAL NOT NULL\<close>.\<close>

definition insert_payment ::
  "db \<Rightarrow> int \<Rightarrow> int \<Rightarrow> string \<Rightarrow> pyfloat \<Rightarrow> string \<Rightarrow> exn + db" where
  "insert_payment db supplier_id hire_id payment_date amount payment_status =
     (if \<not> (sqlite_int supplier_id \<and> sqlite_int hire_id) then Inl OverflowError
      else if amount = NaN then Inl IntegrityError
      else
        let new_id = next_rowid (map p_PaymentID (tblSupplierPayment db)) (seqSupplierPayment db)
        in Inr (db\<lparr>tblSupplierPayment := tblSupplierPayment db @
                  [\<lparr>p_PaymentID = new_id, p_SupplierID = supplier_id, p_HireID = hire_id,
                    p_PaymentDate = payment_date, p_Amount = amount,
                    p_PaymentStatus = payment_status\<rparr>],
                seqSupplierPayment := new_id\<rparr>))"

text \<open>
  The supplier is read from the hire row.  \<open>if not supplier_id\<close> is true for \<open>None\<close>
  (a \<open>NULL\<close> column) and for the integer 0.
\<close>

definition add_supplier_payment :: "db \<Rightarrow> string list \<Rightarrow> result" where
  "add_supplier_payment db inp =
     after (prompt_int None inp) db (\<lambda>hire_id inp.
       if \<not> sqlite_int hire_id then (Raised OverflowError, db, [])
       else
         (case map h_SupplierID (filter (\<lambda>h. h_HireID h = hire_id) (tblHire db)) of
            [] \<Rightarrow> (Printed ''Hire not found.'', db, inp)
          | None # _ \<Rightarrow> (Printed ''This hire has no supplier.'', db, inp)
          | Some supplier_id # _ \<Rightarrow>
              if supplier_id = 0 then (Printed ''This hire has no supplier.'', db, inp)
              else
     after (prompt None inp) db (\<lambda>payment_date inp.
     after (prompt_float inp) db (\<lambda>amount inp.
       case insert_payment db supplier_id hire_id payment_date amount ''Pending'' of
         Inl e \<Rightarrow> (Raised e, db, [])
       | Inr db' \<Rightarrow> (Printed ''Supplier payment recorded.'', db', inp)))))"

definition update_supplier_payment_status :: "db \<Rightarrow> string list \<Rightarrow> result" where
  "update_supplier_payment_status db inp =
     after (prompt_int None inp) db (\<lambda>payment_id inp.
       if \<not> sqlite_int payment_id then (Raised OverflowError, db, [])
       else if \<not> record_exists (map p_PaymentID (tblSupplierPayment db)) payment_id
       then (Printed ''Payment not found.'', db, inp)
       else
     after (prompt None inp) db (\<lambda>status inp.
       (Printed ''Payment status updated.'',
        db\<lparr>tblSupplierPayment :=
             map (\<lambda>p. if p_PaymentID p = payment_id then p\<lparr>p_PaymentStatus := status\<rparr> else p)
               (tblSupplierPayment db)\<rparr>,
        inp)))"

subsection \<open>Sessions\<close>

text \<open>
  The menus call these functions one after another.  A session is the list of the
  operations chosen, run on the lines typed inside them; it ends early when an operation
  raises.
\<close>

datatype command =
  AddHire | UpdateHireStatus | SearchHires
| CreateInvoice | UpdateInvoiceStatus
| AddSupplierPayment | UpdateSupplierPaymentStatus

fun exec :: "command \<Rightarrow> db \<Rightarrow> string list \<Rightarrow> result" where
  "exec AddHire = add_hire"
| "exec UpdateHireStatus = update_hire_status"
| "exec SearchHires = search_hires"
| "exec CreateInvoice = create_invoice_from_hire"
| "exec UpdateInvoiceStatus = update_invoice_status"
| "exec AddSupplierPayment = add_supplier_payment"
| "exec UpdateSupplierPaymentStatus = update_supplier_payment_status"

fun run :: "command list \<Rightarrow> db \<Rightarrow> string list \<Rightarrow> outcome list \<times> db" where
  "run [] db inp = ([], db)"
| "run (c # cs) db inp =
     (case exec c db inp of
        (Raised e, db', rest) \<Rightarrow> ([Raised e], db')
      | (out, db', rest) \<Rightarrow> (case run cs db' rest of (outs, db'') \<Rightarrow> (out # outs, db'')))"

section \<open>Vocabulary of the properties\<close>

text \<open>Strings of decimal digits only.\<close>

definition all_digits :: "string \<Rightarrow> bool" where
  "all_digits s = (\<forall>c \<in> set s. isdigit c)"

text \<open>The label of the \<open>n\<close>-th invoice: \<open>INV-0001\<close>, \<open>INV-0002\<close>, ...\<close>

definition invoice_label :: "nat \<Rightarrow> string" where
  "invoice_label n = ''INV-'' @ format_04d (int n)"

text \<open>The number that the generator reads back from a stored invoice number.\<close>

definition invoice_number :: "string \<Rightarrow> int option" where
  "invoice_number no = py_int (last (split_on (CHR ''-'') no))"

text \<open>
  An invoice table is numbered when its rows carry the labels 1, 2, 3, ... in storage
  order and their keys grow in that order.
\<close>

definition numbered :: "invoice list \<Rightarrow> bool" where
  "numbered invs =
     (map i_InvoiceNo invs = map invoice_label [1..<Suc (length invs)] \<and>
      sorted_wrt (<) (map i_InvoiceID invs))"

text \<open>The invoice numbers that a session reported, in order.\<close>

fun created_numbers :: "outcome list \<Rightarrow> string list" where
  "created_numbers [] = []"
| "created_numbers (InvoiceCreated n # outs) = n # created_numbers outs"
| "created_numbers (_ # outs) = created_numbers outs"

text \<open>An operation that neither touches the invoice table nor reports an invoice number.\<close>

definition keeps_invoices :: "db \<Rightarrow> result \<Rightarrow> bool" where
  "keeps_invoices db res =
     (tblCustomerInvoice (fst (snd res)) = tblCustomerInvoice db \<and>
      seqCustomerInvoice (fst (snd res)) = seqCustomerInvoice db \<and>
      created_numbers [fst res] = [])"

text \<open>
  An operation that leaves the invoice table numbered and adds to it exactly the numbers
  it reports.
\<close>

definition grows_numbered :: "db \<Rightarrow> result \<Rightarrow> bool" where
  "grows_numbered db res =
     (numbered (tblCustomerInvoice (fst (snd res))) \<and>
      map i_InvoiceNo (tblCustomerInvoice (fst (snd res))) =
        map i_InvoiceNo (tblCustomerInvoice db) @ created_numbers [fst res])"

text \<open>
  The ownership of an asset, as the query of \<open>add_hire\<close> reads it: the first row with
  that key.
\<close>

definition ownership_of :: "db \<Rightarrow> string \<Rightarrow> string option" where
  "ownership_of db fleet_id =
     (case filter (\<lambda>r. f_FleetID r = fleet_id) (tblFleet db) of
        [] \<Rightarrow> None
      | r # _ \<Rightarrow> Some (f_Ownership r))"

text \<open>
  A rational number that is a binary64 value: rounding leaves it as it is.
\<close>

definition representable :: "rat \<Rightarrow> bool" where
  "representable x = (round_binary64 x = Finite x)"

text \<open>
  Substrings, with the case of letters respected: \<open>contains v s\<close> when \<open>v\<close> occurs in
  \<open>s\<close>.
\<close>

fun starts_with :: "string \<Rightarrow> string \<Rightarrow> bool" where
  "starts_with [] s = True"
| "starts_with (v # vs) [] = False"
| "starts_with (v # vs) (c # cs) = (v = c \<and> starts_with vs cs)"

fun contains :: "string \<Rightarrow> string \<Rightarrow> bool" where
  "contains v [] = (v = [])"
| "contains v (c # cs) = (starts_with v (c # cs) \<or> contains v cs)"


text \<open>A small database for the examples: two assets, one completed and one open hire.\<close>

definition demo_db :: db where
  "demo_db =
     \<lparr>tblFleet = [\<lparr>f_FleetID = ''F1'', f_Ownership = ''Rented-in''\<rparr>,
                 \<lparr>f_FleetID = ''F2'', f_Ownership = ''Owned''\<rparr>],
      tblDriver = [1], tblSupplier = [1], tblCustomer = [1],
      tblHire =
        [\<lparr>h_HireID = 1, h_FleetID = ''F1'', h_DriverID = 1, h_CustomerID = 1,
          h_SupplierID = Some 1, h_HireType = ''Daily'', h_StartDate = ''2024-01-01'',
          h_EndDate = None, h_Rate = Finite 100, h_Quantity = 5, h_TotalAmount = Finite 500,
          h_Status = ''Completed''\<rparr>,
         \<lparr>h_HireID = 2, h_FleetID = ''F2'', h_DriverID = 1, h_CustomerID = 1,
          h_SupplierID = None, h_HireType = ''Trip'', h_StartDate = ''2024-01-05'',
          h_EndDate = None, h_Rate = Finite 80, h_Quantity = 1, h_TotalAmount = Finite 80,
          h_Status = ''Open''\<rparr>],
      tblCustomerInvoice = [], tblSupplierPayment = [],
      seqHire = 2, seqCustomerInvoice = 0, seqSupplierPayment = 0\<rparr>"

section \<open>Digits, parsing and formatting\<close>

text \<open>The overflow bound as a numeral, for evaluation.\<close>

lemma binary64_limit_numeral [code]:
  "binary64_limit =
     179769313486231590772930519078902473361797697894230657273430081157732675805500963132708477322407536021120113879871393357658789768814416622492847430639474124377767893424865485276302219601246094119453082952085005768838150682342462881473913110540827237163350510684586298239947245938479716304835356329624224137216"
  by (simp add: binary64_limit_def)

lemma split_on_nonempty: "split_on sep s \<noteq> []"
  by (induction s) (auto split: list.splits)

lemma digit_char_cases:
  assumes "0 \<le> d" "d < 10"
  shows "d = 0 \<or> d = 1 \<or> d = 2 \<or> d = 3 \<or> d = 4 \<or> d = 5 \<or> d = 6 \<or> d = 7 \<or> d = 8 \<or> d = (9::int)"
  using assms by arith

lemma digit_char_props:
  assumes "0 \<le> d" "d < 10"
  shows "isdigit (digit_char d)" "digit_val (digit_char d) = d" "\<not> isspace (digit_char d)"
    "digit_char d \<noteq> CHR ''-''" "digit_char d \<noteq> CHR ''+''" "digit_char d \<noteq> CHR ''_''"
  using digit_char_cases [OF assms]
  by (auto simp: isdigit_def digit_val_def digit_char_def isspace_def)

lemma zero_char_props:
  "isdigit (CHR ''0'')" "digit_val (CHR ''0'') = 0" "\<not> isspace (CHR ''0'')"
  by (simp_all add: isdigit_def digit_val_def isspace_def)

lemma int_digits_all_digits: "0 \<le> n \<Longrightarrow> all_digits (int_digits n)"
proof (induction n rule: int_digits.induct)
  case (1 n)
  show ?case
  proof (cases "n < 10")
    case True
    with 1 show ?thesis
      by (subst int_digits.simps) (simp add: all_digits_def digit_char_props)
  next
    case False
    with 1 have "all_digits (int_digits (n div 10))" by simp
    moreover have "isdigit (digit_char (n mod 10))" by (simp add: digit_char_props)
    ultimately show ?thesis using False
      by (subst int_digits.simps) (simp add: all_digits_def)
  qed
qed

lemma int_digits_nonempty: "int_digits n \<noteq> []"
  by (subst int_digits.simps) simp

lemma digits_val_snoc: "digits_val (s @ [c]) = 10 * digits_val s + digit_val c"
  by (simp add: digits_val_def)

lemma digits_val_int_digits: "0 \<le> n \<Longrightarrow> digits_val (int_digits n) = n"
proof (induction n rule: int_digits.induct)
  case (1 n)
  show ?case
  proof (cases "n < 10")
    case True
    with 1 show ?thesis
      by (subst int_digits.simps) (simp add: digits_val_def digit_char_props)
  next
    case False
    with 1 have "digits_val (int_digits (n div 10)) = n div 10" by simp
    then show ?thesis using False
      by (subst int_digits.simps) (simp add: digits_val_snoc digit_char_props)
  qed
qed


lemma all_digits_append [simp]: "all_digits (a @ b) = (all_digits a \<and> all_digits b)"
  by (auto simp: all_digits_def)

lemma all_digits_replicate_zero [simp]: "all_digits (replicate k (CHR ''0''))"
  by (simp add: all_digits_def zero_char_props)

lemma isdigit_not_space: "isdigit c \<Longrightarrow> \<not> isspace_number c"
  by (auto simp: isdigit_def isspace_number_def)

lemma isdigit_not_sign: "isdigit c \<Longrightarrow> c \<noteq> CHR ''-'' \<and> c \<noteq> CHR ''+'' \<and> c \<noteq> CHR ''_''"
  by (auto simp: isdigit_def)

lemma strip_all_digits: "all_digits s \<Longrightarrow> strip_with isspace_number s = s"
proof -
  assume a: "all_digits s"
  have 1: "dropWhile isspace_number s = s"
    using a by (cases s) (auto simp: all_digits_def isdigit_not_space)
  have "all_digits (rev s)" using a by (simp add: all_digits_def)
  then have 2: "dropWhile isspace_number (rev s) = rev s"
    by (cases "rev s") (auto simp: all_digits_def isdigit_not_space)
  show ?thesis by (simp add: strip_with_def 1 2)
qed

lemma parse_digits_all_digits:
  "all_digits s \<Longrightarrow> parse_digits s acc = Some (foldl (\<lambda>a c. 10 * a + digit_val c) acc s)"
  by (induction s arbitrary: acc) (auto simp: all_digits_def)

lemma py_int_all_digits:
  assumes "all_digits s" "s \<noteq> []"
  shows "py_int s = Some (digits_val s)"
proof -
  from assms obtain c cs where s: "s = c # cs" by (cases s) auto
  with assms have c: "isdigit c" and cs: "all_digits cs" by (auto simp: all_digits_def)
  have "py_int s = parse_digitpart (c # cs)"
    unfolding py_int_def strip_all_digits [OF assms(1)]
    using isdigit_not_sign [OF c] by (simp add: s)
  also have "\<dots> = Some (digits_val s)"
    using c cs by (simp add: s parse_digitpart_def parse_digits_all_digits digits_val_def)
  finally show ?thesis .
qed

lemma digits_val_zeros: "digits_val (replicate k (CHR ''0'') @ s) = digits_val s"
proof -
  have "foldl (\<lambda>a c. 10 * a + digit_val c) 0 (replicate k (CHR ''0'')) = 0"
    by (induction k) (simp_all add: zero_char_props)
  then show ?thesis by (simp add: digits_val_def)
qed

lemma format_04d_nonneg:
  "0 \<le> n \<Longrightarrow> format_04d n = replicate (4 - length (int_digits n)) (CHR ''0'') @ int_digits n"
  by (simp add: format_04d_def Let_def)

lemma py_int_format_04d: "0 \<le> n \<Longrightarrow> py_int (format_04d n) = Some n"
  by (simp add: format_04d_nonneg py_int_all_digits int_digits_all_digits int_digits_nonempty
      digits_val_zeros digits_val_int_digits)

lemma split_on_no_sep: "sep \<notin> set s \<Longrightarrow> split_on sep s = [s]"
  by (induction s) auto

lemma split_on_append_sep:
  "\<exists>p ps. split_on sep (a @ sep # b) = p # ps \<and> ps \<noteq> [] \<and> last ps = last (split_on sep b)"
proof (induction a)
  case Nil
  show ?case by (simp add: split_on_nonempty)
next
  case (Cons x a)
  then obtain p ps where "split_on sep (a @ sep # b) = p # ps" "ps \<noteq> []"
    "last ps = last (split_on sep b)" by blast
  then show ?case by (cases "x = sep") simp_all
qed

lemma last_split_on_append:
  "last (split_on sep (a @ sep # b)) = last (split_on sep b)"
  using split_on_append_sep [of sep a b] by auto

lemma all_digits_no_dash: "all_digits s \<Longrightarrow> CHR ''-'' \<notin> set s"
  using isdigit_not_sign by (auto simp: all_digits_def)

lemma suffix_invoice_label:
  "last (split_on (CHR ''-'') (invoice_label n)) = format_04d (int n)"
proof -
  have "all_digits (format_04d (int n))"
    by (simp add: format_04d_nonneg int_digits_all_digits)
  then have "split_on (CHR ''-'') (format_04d (int n)) = [format_04d (int n)]"
    by (simp add: split_on_no_sep all_digits_no_dash)
  moreover have "invoice_label n = ''INV'' @ CHR ''-'' # format_04d (int n)"
    by (simp add: invoice_label_def)
  ultimately show ?thesis
    by (simp only: last_split_on_append) simp
qed

lemma py_int_suffix_invoice_label:
  "py_int (last (split_on (CHR ''-'') (invoice_label n))) = Some (int n)"
  by (simp add: suffix_invoice_label py_int_format_04d)

lemma invoice_label_inj:
  assumes "invoice_label m = invoice_label n"
  shows "m = n"
proof -
  have "py_int (last (split_on (CHR ''-'') (invoice_label m))) =
        py_int (last (split_on (CHR ''-'') (invoice_label n)))"
    by (simp only: assms)
  then have "Some (int m) = Some (int n)"
    by (simp only: py_int_suffix_invoice_label)
  then show ?thesis by simp
qed

section \<open>Invoice numbering\<close>

lemma latest_invoice_None: "latest_invoice rows = None \<longleftrightarrow> rows = []"
  by (induction rows) (auto split: option.splits)

lemma latest_invoice_mem: "latest_invoice rows = Some m \<Longrightarrow> m \<in> set rows"
  by (induction rows arbitrary: m) (auto split: option.splits if_splits)

lemma latest_invoice_max:
  assumes "row \<in> set rows"
    and "\<forall>r \<in> set rows. r \<noteq> row \<longrightarrow> i_InvoiceID r < i_InvoiceID row"
  shows "latest_invoice rows = Some row"
  using assms
proof (induction rows)
  case Nil
  then show ?case by simp
next
  case (Cons r rs)
  show ?case
  proof (cases "row \<in> set rs")
    case True
    with Cons have "latest_invoice rs = Some row" by simp
    with Cons.prems show ?thesis by (cases "r = row") auto
  next
    case False
    with Cons.prems have r: "r = row" by simp
    show ?thesis
    proof (cases "latest_invoice rs")
      case None
      then show ?thesis by (simp add: r)
    next
      case (Some m)
      then have "m \<in> set rs" by (rule latest_invoice_mem)
      with False Cons.prems have "i_InvoiceID m < i_InvoiceID row" by auto
      with Some show ?thesis by (simp add: r)
    qed
  qed
qed

lemma latest_invoice_last:
  assumes "sorted_wrt (<) (map i_InvoiceID rows)" "rows \<noteq> []"
  shows "latest_invoice rows = Some (last rows)"
proof (rule latest_invoice_max)
  show "last rows \<in> set rows" using assms(2) by simp
  show "\<forall>r \<in> set rows. r \<noteq> last rows \<longrightarrow> i_InvoiceID r < i_InvoiceID (last rows)"
  proof (intro ballI impI)
    fix r assume r: "r \<in> set rows" "r \<noteq> last rows"
    from assms(2) obtain xs where xs: "rows = xs @ [last rows]"
      by (metis append_butlast_last_id)
    with r have "r \<in> set xs" by (metis Un_iff empty_iff empty_set set_ConsD set_append)
    moreover have "sorted_wrt (<) (map i_InvoiceID xs @ [i_InvoiceID (last rows)])"
      using assms(1) xs by (metis list.simps(8,9) map_append)
    ultimately show "i_InvoiceID r < i_InvoiceID (last rows)"
      by (auto simp: sorted_wrt_append)
  qed
qed

lemma fold_max_ge_init: "(s::int) \<le> fold max ids s"
  by (induction ids arbitrary: s) (auto intro: order_trans [OF max.cobounded2])

lemma fold_max_ge_elem: "(x::int) \<in> set ids \<Longrightarrow> x \<le> fold max ids s"
proof (induction ids arbitrary: s)
  case Nil
  then show ?case by simp
next
  case (Cons a ids)
  show ?case
  proof (cases "x = a")
    case True
    have "a \<le> max a s" by simp
    also have "\<dots> \<le> fold max ids (max a s)" by (rule fold_max_ge_init)
    finally show ?thesis using True by simp
  next
    case False
    with Cons show ?thesis by simp
  qed
qed

lemma next_rowid_fresh: "x \<in> set ids \<Longrightarrow> x < next_rowid ids s"
  using fold_max_ge_elem [of x ids s] by (simp add: next_rowid_def)

lemma format_04d_1: "format_04d 1 = ''0001''"
  by (simp add: format_04d_def Let_def int_digits.simps [of 1] digit_char_def
      numeral_3_eq_3)

lemma invoice_label_1: "invoice_label (Suc 0) = ''INV-0001''"
  by (simp add: invoice_label_def format_04d_1)

lemma generate_invoice_no_numbered:
  assumes "numbered (tblCustomerInvoice db)"
  shows "generate_invoice_no db = invoice_label (Suc (length (tblCustomerInvoice db)))"
proof (cases "tblCustomerInvoice db = []")
  case True
  then show ?thesis by (simp add: generate_invoice_no_def invoice_label_1)
next
  case False
  define invs where "invs = tblCustomerInvoice db"
  from assms have nos: "map i_InvoiceNo invs = map invoice_label [1..<Suc (length invs)]"
    and ids: "sorted_wrt (<) (map i_InvoiceID invs)"
    by (simp_all add: numbered_def invs_def)
  from False have ne: "invs \<noteq> []" by (simp add: invs_def)
  have latest: "latest_invoice invs = Some (last invs)"
    using ids ne by (rule latest_invoice_last)
  have "i_InvoiceNo (last invs) = last (map i_InvoiceNo invs)"
    using ne by (simp add: last_map)
  also have "\<dots> = invoice_label (length invs)"
  proof -
    from ne obtain k where k: "length invs = Suc k" by (cases invs) auto
    have "last (map invoice_label [1..<Suc (Suc k)]) = invoice_label (Suc k)"
      by simp
    then show ?thesis by (simp only: nos k)
  qed
  finally have no: "i_InvoiceNo (last invs) = invoice_label (length invs)" .
  have "generate_invoice_no db = ''INV-'' @ format_04d (int (length invs) + 1)"
    using latest by (simp add: generate_invoice_no_def invs_def [symmetric] no
        py_int_suffix_invoice_label)
  also have "\<dots> = invoice_label (Suc (length invs))"
    by (simp add: invoice_label_def add.commute)
  finally show ?thesis by (simp add: invs_def)
qed

lemma numbered_snoc:
  assumes "numbered invs" "i_InvoiceNo r = invoice_label (Suc (length invs))"
    "\<forall>x \<in> set invs. i_InvoiceID x < i_InvoiceID r"
  shows "numbered (invs @ [r])"
  using assms by (auto simp: numbered_def sorted_wrt_append)

lemma hire_supplier_Ended:
  "hire_supplier db fleet_id inp = Ended out rest \<Longrightarrow> (\<exists>m. out = Printed m) \<or> (\<exists>e. out = Raised e)"
  by (auto simp: hire_supplier_def ask_def ask_choice_def Let_def
      split: sum.splits prod.splits option.splits if_splits)

lemma ask_hire_Ended:
  "ask_hire db inp = Ended out rest \<Longrightarrow> (\<exists>m. out = Printed m) \<or> (\<exists>e. out = Raised e)"
  by (auto simp: ask_hire_def ask_def ask_choice_def
      split: sum.splits prod.splits asked.splits if_splits dest: hire_supplier_Ended)

lemma add_hire_keeps_invoices: "keeps_invoices db (add_hire db inp)"
  by (auto simp: add_hire_def keeps_invoices_def insert_hire_def Let_def
      split: asked.splits option.splits sum.splits dest: ask_hire_Ended)

lemma update_hire_status_keeps_invoices: "keeps_invoices db (update_hire_status db inp)"
  by (auto simp: update_hire_status_def keeps_invoices_def after_def
      split: sum.splits prod.splits)

lemma search_hires_keeps_invoices: "keeps_invoices db (search_hires db inp)"
  by (auto simp: search_hires_def keeps_invoices_def after_def
      split: sum.splits prod.splits)

lemma add_supplier_payment_keeps_invoices: "keeps_invoices db (add_supplier_payment db inp)"
  by (auto simp: add_supplier_payment_def keeps_invoices_def after_def insert_payment_def
      Let_def split: sum.splits prod.splits option.splits list.splits)

lemma update_supplier_payment_status_keeps_invoices:
  "keeps_invoices db (update_supplier_payment_status db inp)"
  by (auto simp: update_supplier_payment_status_def keeps_invoices_def after_def
      split: sum.splits prod.splits)


lemma keeps_invoices_grows:
  "numbered (tblCustomerInvoice db) \<Longrightarrow> keeps_invoices db res \<Longrightarrow> grows_numbered db res"
  by (simp add: keeps_invoices_def grows_numbered_def)

lemma insert_invoice_numbered:
  assumes "numbered (tblCustomerInvoice db)"
    and "insert_invoice db (invoice_label (Suc (length (tblCustomerInvoice db)))) h c d a st = Inr db'"
  shows "numbered (tblCustomerInvoice db') \<and>
    map i_InvoiceNo (tblCustomerInvoice db') =
      map i_InvoiceNo (tblCustomerInvoice db) @ [invoice_label (Suc (length (tblCustomerInvoice db)))]"
proof -
  let ?new = "next_rowid (map i_InvoiceID (tblCustomerInvoice db)) (seqCustomerInvoice db)"
  let ?r = "\<lparr>i_InvoiceID = ?new,
      i_InvoiceNo = invoice_label (Suc (length (tblCustomerInvoice db))), i_HireID = h,
      i_CustomerID = c, i_InvoiceDate = d, i_Amount = a, i_PaymentStatus = st\<rparr>"
  from assms(2) have tbl: "tblCustomerInvoice db' = tblCustomerInvoice db @ [?r]"
    by (auto simp: insert_invoice_def Let_def split: if_splits)
  have "\<forall>x \<in> set (tblCustomerInvoice db). i_InvoiceID x < i_InvoiceID ?r"
    by (simp add: next_rowid_fresh)
  with assms(1) have "numbered (tblCustomerInvoice db @ [?r])"
    by (intro numbered_snoc) simp_all
  then show ?thesis by (simp add: tbl)
qed

lemma create_invoice_from_hire_grows:
  assumes "numbered (tblCustomerInvoice db)"
  shows "grows_numbered db (create_invoice_from_hire db inp)"
proof -
  have "grows_numbered db (Raised e, db, [])" for e
    using assms by (simp add: grows_numbered_def)
  moreover have "grows_numbered db (Printed m, db, r)" for m r
    using assms by (simp add: grows_numbered_def)
  moreover have "grows_numbered db (InvoiceCreated (generate_invoice_no db), db', r)"
    if "insert_invoice db (generate_invoice_no db) h c d a st = Inr db'" for h c d a st db' r
    using insert_invoice_numbered [OF assms, of h c d a st db'] that
    by (simp add: grows_numbered_def generate_invoice_no_numbered [OF assms])
  ultimately show ?thesis
    by (auto simp: create_invoice_from_hire_def Let_def after_def
        split: sum.splits prod.splits option.splits)
qed

lemma set_status_numbered:
  assumes "numbered invs"
  shows "numbered (map (\<lambda>i. if i_InvoiceID i = k then i\<lparr>i_PaymentStatus := st\<rparr> else i) invs) \<and>
    map i_InvoiceNo (map (\<lambda>i. if i_InvoiceID i = k then i\<lparr>i_PaymentStatus := st\<rparr> else i) invs) =
      map i_InvoiceNo invs"
proof -
  let ?f = "\<lambda>i. if i_InvoiceID i = k then i\<lparr>i_PaymentStatus := st\<rparr> else i"
  have no: "map i_InvoiceNo (map ?f invs) = map i_InvoiceNo invs"
    by (induction invs) auto
  have ids: "map i_InvoiceID (map ?f invs) = map i_InvoiceID invs"
    by (induction invs) auto
  from assms have "numbered (map ?f invs)"
    unfolding numbered_def by (simp only: no ids length_map) 
  with no show ?thesis by simp
qed

lemma update_invoice_status_grows:
  assumes "numbered (tblCustomerInvoice db)"
  shows "grows_numbered db (update_invoice_status db inp)"
  using assms set_status_numbered [OF assms]
  by (auto simp: update_invoice_status_def grows_numbered_def after_def
      split: sum.splits prod.splits)

lemma exec_grows:
  assumes "numbered (tblCustomerInvoice db)"
  shows "grows_numbered db (exec c db inp)"
proof (cases c)
  case AddHire
  then show ?thesis using assms by (simp add: keeps_invoices_grows add_hire_keeps_invoices)
next
  case UpdateHireStatus
  then show ?thesis
    using assms by (simp add: keeps_invoices_grows update_hire_status_keeps_invoices)
next
  case SearchHires
  then show ?thesis using assms by (simp add: keeps_invoices_grows search_hires_keeps_invoices)
next
  case CreateInvoice
  then show ?thesis using assms by (simp add: create_invoice_from_hire_grows)
next
  case UpdateInvoiceStatus
  then show ?thesis using assms by (simp add: update_invoice_status_grows)
next
  case AddSupplierPayment
  then show ?thesis
    using assms by (simp add: keeps_invoices_grows add_supplier_payment_keeps_invoices)
next
  case UpdateSupplierPaymentStatus
  then show ?thesis
    using assms by (simp add: keeps_invoices_grows update_supplier_payment_status_keeps_invoices)
qed

lemma created_numbers_Cons: "created_numbers (out # outs) = created_numbers [out] @ created_numbers outs"
  by (cases out) simp_all

lemma run_numbered:
  assumes "numbered (tblCustomerInvoice db)" and "run cmds db inp = (outs, db')"
  shows "numbered (tblCustomerInvoice db') \<and>
    map i_InvoiceNo (tblCustomerInvoice db') =
      map i_InvoiceNo (tblCustomerInvoice db) @ created_numbers outs"
  using assms
proof (induction cmds arbitrary: db inp outs db')
  case Nil
  then show ?case by simp
next
  case (Cons c cmds)
  obtain out db1 rest where ex: "exec c db inp = (out, db1, rest)"
    by (cases "exec c db inp") auto
  from exec_grows [OF Cons.prems(1), of c inp] ex
  have n1: "numbered (tblCustomerInvoice db1)"
    and g1: "map i_InvoiceNo (tblCustomerInvoice db1) =
      map i_InvoiceNo (tblCustomerInvoice db) @ created_numbers [out]"
    by (simp_all add: grows_numbered_def)
  show ?case
  proof (cases "\<exists>e. out = Raised e")
    case True
    with Cons.prems(2) ex have "outs = [out]" "db' = db1" by auto
    with n1 g1 show ?thesis by simp
  next
    case False
    obtain outs2 db2 where r2: "run cmds db1 rest = (outs2, db2)"
      by (cases "run cmds db1 rest") auto
    with False Cons.prems(2) ex have eq: "outs = out # outs2" "db' = db2"
      by (cases out; simp)+
    from Cons.IH [OF n1 r2] g1 show ?thesis
      by (simp add: eq created_numbers_Cons [of out outs2])
  qed
qed

text \<open>
  C1.  Starting from an empty invoice table, after any session (any operations of the hire,
  invoice and supplier-payment modules, on any typed lines) the stored invoice numbers are
  \<open>INV-0001\<close>, \<open>INV-0002\<close>, ... in creation order, they are exactly the numbers that were
  reported at creation, they are pairwise distinct, and the number read back from the
  \<open>k\<close>-th of them is \<open>k\<close>.
\<close>

theorem invoice_numbers_sequential:
  assumes "tblCustomerInvoice db = []" and "run cmds db inp = (outs, db')"
  shows "map i_InvoiceNo (tblCustomerInvoice db') =
           map invoice_label [1..<Suc (length (tblCustomerInvoice db'))] \<and>
         created_numbers outs = map i_InvoiceNo (tblCustomerInvoice db') \<and>
         distinct (map i_InvoiceNo (tblCustomerInvoice db')) \<and>
         map invoice_number (map i_InvoiceNo (tblCustomerInvoice db')) =
           map (\<lambda>k. Some (int k)) [1..<Suc (length (tblCustomerInvoice db'))]"
proof -
  have "numbered (tblCustomerInvoice db)" by (simp add: assms(1) numbered_def)
  from run_numbered [OF this assms(2)]
  have n: "numbered (tblCustomerInvoice db')"
    and c: "map i_InvoiceNo (tblCustomerInvoice db') = created_numbers outs"
    by (simp_all add: assms(1))
  from n have nos: "map i_InvoiceNo (tblCustomerInvoice db') =
      map invoice_label [1..<Suc (length (tblCustomerInvoice db'))]"
    by (simp add: numbered_def)
  have "inj_on invoice_label A" for A
    by (rule inj_onI) (rule invoice_label_inj)
  then have d: "distinct (map invoice_label [1..<Suc (length (tblCustomerInvoice db'))])"
    by (simp add: distinct_map)
  have v: "map invoice_number (map invoice_label ks) = map (\<lambda>k. Some (int k)) ks" for ks
    by (simp add: invoice_number_def py_int_suffix_invoice_label)
  show ?thesis
    using c d v [of "[1..<Suc (length (tblCustomerInvoice db'))]"] by (simp only: nos [symmetric])
qed

theorem invoice_numbers_sequential_witness:
  "tblCustomerInvoice demo_db = [] \<and>
   map i_InvoiceNo (tblCustomerInvoice (snd (run
     [CreateInvoice, UpdateInvoiceStatus, CreateInvoice, CreateInvoice] demo_db
     [''1'', ''2024-02-01'', ''1'', ''Paid'', ''1'', ''2024-02-02'', ''x'', ''1'', ''2024-02-03'']))) =
     [''INV-0001'', ''INV-0002'', ''INV-0003'']"
proof -
  let ?cmds = "[CreateInvoice, UpdateInvoiceStatus, CreateInvoice, CreateInvoice]"
  let ?inp = "[''1'', ''2024-02-01'', ''1'', ''Paid'', ''1'', ''2024-02-02'', ''x'', ''1'',
    ''2024-02-03'']"
  have e: "tblCustomerInvoice demo_db = []"
    by (simp add: demo_db_def)
  have len: "length (tblCustomerInvoice (snd (run ?cmds demo_db ?inp))) = 3"
    by code_simp
  have lab: "map invoice_label [1..<Suc 3] = [''INV-0001'', ''INV-0002'', ''INV-0003'']"
    by code_simp
  from invoice_numbers_sequential [OF e surjective_pairing, of ?cmds ?inp]
  have "map i_InvoiceNo (tblCustomerInvoice (snd (run ?cmds demo_db ?inp))) =
      map invoice_label [1..<Suc 3]"
    by (simp only: len)
  with e lab show ?thesis by simp
qed

text \<open>
  C8.  When the invoice with the largest key (the most recently created one) carries a
  number whose part after the last \<open>-\<close> does not parse as an integer, the generator
  returns \<open>INV-0001\<close>; it is a total function, so it does not fail.
\<close>

theorem generate_invoice_no_unparsable:
  assumes "row \<in> set (tblCustomerInvoice db)"
    and "\<forall>r \<in> set (tblCustomerInvoice db). r \<noteq> row \<longrightarrow> i_InvoiceID r < i_InvoiceID row"
    and "py_int (last (split_on (CHR ''-'') (i_InvoiceNo row))) = None"
  shows "generate_invoice_no db = ''INV-0001''"
proof -
  from assms(1,2) have "latest_invoice (tblCustomerInvoice db) = Some row"
    by (rule latest_invoice_max)
  with assms(3) show ?thesis
    by (simp add: generate_invoice_no_def format_04d_1)
qed

theorem generate_invoice_no_unparsable_witness:
  "generate_invoice_no
     (demo_db\<lparr>tblCustomerInvoice :=
        [\<lparr>i_InvoiceID = 1, i_InvoiceNo = ''INV-0007'', i_HireID = 1, i_CustomerID = 1,
          i_InvoiceDate = ''2024-02-01'', i_Amount = Finite 500, i_PaymentStatus = ''Paid''\<rparr>,
         \<lparr>i_InvoiceID = 2, i_InvoiceNo = ''INV-12A'', i_HireID = 1, i_CustomerID = 1,
          i_InvoiceDate = ''2024-02-02'', i_Amount = Finite 500,
          i_PaymentStatus = ''Unpaid''\<rparr>]\<rparr>) = ''INV-0001''"
proof -
  let ?old = "\<lparr>i_InvoiceID = 1, i_InvoiceNo = ''INV-0007'', i_HireID = 1, i_CustomerID = 1,
    i_InvoiceDate = ''2024-02-01'', i_Amount = Finite 500, i_PaymentStatus = ''Paid''\<rparr>"
  let ?row = "\<lparr>i_InvoiceID = 2, i_InvoiceNo = ''INV-12A'', i_HireID = 1, i_CustomerID = 1,
    i_InvoiceDate = ''2024-02-02'', i_Amount = Finite 500, i_PaymentStatus = ''Unpaid''\<rparr>"
  let ?db = "demo_db\<lparr>tblCustomerInvoice := [?old, ?row]\<rparr>"
  have 1: "?row \<in> set (tblCustomerInvoice ?db)" by simp
  have 2: "\<forall>r \<in> set (tblCustomerInvoice ?db). r \<noteq> ?row \<longrightarrow> i_InvoiceID r < i_InvoiceID ?row"
    by simp
  have 3: "py_int (last (split_on (CHR ''-'') (i_InvoiceNo ?row))) = None"
    by code_simp
  show ?thesis by (rule generate_invoice_no_unparsable [OF 1 2 3])
qed

section \<open>Invoices and supplier payments follow the hire\<close>

lemma find_filter: "find P xs = Some x \<Longrightarrow> \<exists>ys. filter P xs = x # ys"
  by (induction xs) (auto split: if_splits)

lemma find_filter_None: "find P xs = None \<Longrightarrow> filter P xs = []"
  by (induction xs) (auto split: if_splits)

lemma find_Some_mem: "find P xs = Some x \<Longrightarrow> x \<in> set xs \<and> P x"
  by (induction xs) (auto split: if_splits)

lemma find_None_iff_filter: "find P xs = None \<longleftrightarrow> \<not> (\<exists>x \<in> set xs. P x)"
  by (induction xs) auto

text \<open>
  C3.  When the hire identifier typed is not that of a hire whose status is \<open>Completed\<close>
  (an open or cancelled hire, or an unknown identifier), \<open>create_invoice_from_hire\<close>
  refuses, with the message that no completed hire is available or that the identifier is
  invalid, and the database is unchanged.  The completed hires are read from the database
  when the function runs.  Whenever the function changes the database, it has added one
  unpaid invoice for a hire that is \<open>Completed\<close> in it, with that hire's customer and
  total.  (The code has no exception types of its own: the refusal that the specification
  calls a validation error is the message and the early return.)
\<close>

theorem invoice_requires_completed_hire:
  "(prompt_int None inp = Inr (hire_id, rest) \<and>
    \<not> (\<exists>h \<in> set (tblHire db). h_HireID h = hire_id \<and> h_Status h = ''Completed'') \<longrightarrow>
      create_invoice_from_hire db inp = (Printed ''No completed hires available.'', db, inp) \<or>
      create_invoice_from_hire db inp = (Printed ''Invalid Hire ID.'', db, rest)) \<and>
   (\<forall>out db' rest'.
      create_invoice_from_hire db inp = (out, db', rest') \<and> db' \<noteq> db \<longrightarrow>
        (\<exists>h \<in> set (tblHire db). \<exists>i.
           h_Status h = ''Completed'' \<and>
           tblCustomerInvoice db' = tblCustomerInvoice db @ [i] \<and>
           i_HireID i = h_HireID h \<and> i_CustomerID i = h_CustomerID h \<and>
           i_Amount i = h_TotalAmount h \<and> i_PaymentStatus i = ''Unpaid'' \<and>
           out = InvoiceCreated (i_InvoiceNo i)))"
proof (intro conjI impI allI)
  assume a: "prompt_int None inp = Inr (hire_id, rest) \<and>
    \<not> (\<exists>h \<in> set (tblHire db). h_HireID h = hire_id \<and> h_Status h = ''Completed'')"
  then have "find (\<lambda>h. h_HireID h = hire_id) (filter (\<lambda>h. h_Status h = ''Completed'') (tblHire db)) = None"
    by (auto simp: find_None_iff_filter)
  with a show "create_invoice_from_hire db inp = (Printed ''No completed hires available.'', db, inp) \<or>
      create_invoice_from_hire db inp = (Printed ''Invalid Hire ID.'', db, rest)"
    by (simp add: create_invoice_from_hire_def Let_def after_def)
next
  fix out db' rest'
  assume "create_invoice_from_hire db inp = (out, db', rest') \<and> db' \<noteq> db"
  then show "\<exists>h \<in> set (tblHire db). \<exists>i.
           h_Status h = ''Completed'' \<and>
           tblCustomerInvoice db' = tblCustomerInvoice db @ [i] \<and>
           i_HireID i = h_HireID h \<and> i_CustomerID i = h_CustomerID h \<and>
           i_Amount i = h_TotalAmount h \<and> i_PaymentStatus i = ''Unpaid'' \<and>
           out = InvoiceCreated (i_InvoiceNo i)"
    by (auto simp: create_invoice_from_hire_def Let_def after_def insert_invoice_def
        split: sum.splits prod.splits option.splits if_splits dest!: find_Some_mem)
qed

theorem invoice_requires_completed_hire_witness:
  "prompt_int None [''2'', ''2024-02-01''] = Inr (2, [''2024-02-01'']) \<and>
   \<not> (\<exists>h \<in> set (tblHire demo_db). h_HireID h = 2 \<and> h_Status h = ''Completed'') \<and>
   create_invoice_from_hire demo_db [''2'', ''2024-02-01''] =
     (Printed ''Invalid Hire ID.'', demo_db, [''2024-02-01''])"
proof -
  have p: "prompt_int None [''2'', ''2024-02-01''] = Inr (2, [''2024-02-01''])"
    by code_simp
  have n: "\<not> (\<exists>h \<in> set (tblHire demo_db). h_HireID h = 2 \<and> h_Status h = ''Completed'')"
    by (simp add: demo_db_def)
  have c: "filter (\<lambda>h. h_Status h = ''Completed'') (tblHire demo_db) \<noteq> []"
    by (simp add: demo_db_def)
  then have "create_invoice_from_hire demo_db [''2'', ''2024-02-01''] \<noteq>
      (Printed ''No completed hires available.'', demo_db, [''2'', ''2024-02-01''])"
    by (auto simp: create_invoice_from_hire_def Let_def after_def
        split: sum.splits prod.splits option.splits)
  with invoice_requires_completed_hire [THEN conjunct1, rule_format, OF conjI [OF p n]]
  have "create_invoice_from_hire demo_db [''2'', ''2024-02-01''] =
     (Printed ''Invalid Hire ID.'', demo_db, [''2024-02-01''])"
    by blast
  with p n show ?thesis by blast
qed

text \<open>
  C9.  For a hire whose supplier is \<open>NULL\<close>, \<open>add_supplier_payment\<close> refuses with
  \<open>This hire has no supplier.\<close> and the database is unchanged.  Whenever a payment is
  stored, its supplier is the supplier of the hire whose identifier was typed (nothing else
  is asked), it references that hire and its status is \<open>Pending\<close>.  For a hire with a
  supplier other than 0, a payment date and an amount that is a number, the payment is stored.
  (A supplier reference 0 is refused like \<open>NULL\<close>, since the code tests the truth value
  of the reference.)
\<close>

theorem supplier_payment_follows_hire:
  "(prompt_int None inp = Inr (hire_id, rest) \<and> sqlite_int hire_id \<and>
    find (\<lambda>h. h_HireID h = hire_id) (tblHire db) = Some h \<and> h_SupplierID h = None \<longrightarrow>
      add_supplier_payment db inp = (Printed ''This hire has no supplier.'', db, rest)) \<and>
   (\<forall>out db' rest'.
      add_supplier_payment db inp = (out, db', rest') \<and> db' \<noteq> db \<longrightarrow>
        (\<exists>hid r hr s p.
           prompt_int None inp = Inr (hid, r) \<and>
           find (\<lambda>h. h_HireID h = hid) (tblHire db) = Some hr \<and> h_SupplierID hr = Some s \<and>
           tblSupplierPayment db' = tblSupplierPayment db @ [p] \<and>
           p_SupplierID p = s \<and> p_HireID p = hid \<and> p_PaymentStatus p = ''Pending'')) \<and>
   (prompt_int None inp = Inr (hire_id, rest) \<and> sqlite_int hire_id \<and>
    find (\<lambda>h. h_HireID h = hire_id) (tblHire db) = Some h \<and> h_SupplierID h = Some s \<and>
    s \<noteq> 0 \<and> sqlite_int s \<and> prompt None rest = Inr (payment_date, rest1) \<and>
    prompt_float rest1 = Inr (amount, rest2) \<and> amount \<noteq> NaN \<longrightarrow>
      add_supplier_payment db inp =
        (Printed ''Supplier payment recorded.'',
         db\<lparr>tblSupplierPayment := tblSupplierPayment db @
              [\<lparr>p_PaymentID =
                  next_rowid (map p_PaymentID (tblSupplierPayment db)) (seqSupplierPayment db),
                p_SupplierID = s, p_HireID = hire_id, p_PaymentDate = payment_date,
                p_Amount = amount, p_PaymentStatus = ''Pending''\<rparr>],
            seqSupplierPayment :=
              next_rowid (map p_PaymentID (tblSupplierPayment db)) (seqSupplierPayment db)\<rparr>,
         rest2))"
proof (intro conjI impI allI)
  assume "prompt_int None inp = Inr (hire_id, rest) \<and> sqlite_int hire_id \<and>
    find (\<lambda>h. h_HireID h = hire_id) (tblHire db) = Some h \<and> h_SupplierID h = None"
  then show "add_supplier_payment db inp = (Printed ''This hire has no supplier.'', db, rest)"
    by (auto simp: add_supplier_payment_def after_def dest!: find_filter)
next
  fix out db' rest'
  assume a: "add_supplier_payment db inp = (out, db', rest') \<and> db' \<noteq> db"
  obtain hid r where p: "prompt_int None inp = Inr (hid, r)"
    using a by (cases "prompt_int None inp") (auto simp: add_supplier_payment_def after_def)
  show "\<exists>hid r hr s p.
           prompt_int None inp = Inr (hid, r) \<and>
           find (\<lambda>h. h_HireID h = hid) (tblHire db) = Some hr \<and> h_SupplierID hr = Some s \<and>
           tblSupplierPayment db' = tblSupplierPayment db @ [p] \<and>
           p_SupplierID p = s \<and> p_HireID p = hid \<and> p_PaymentStatus p = ''Pending''"
  proof (cases "find (\<lambda>h. h_HireID h = hid) (tblHire db)")
    case None
    with a p show ?thesis
      by (auto simp: add_supplier_payment_def after_def split: if_splits dest!: find_filter_None)
  next
    case (Some hr)
    then obtain ys where f: "filter (\<lambda>h. h_HireID h = hid) (tblHire db) = hr # ys"
      by (auto dest: find_filter)
    with a p Some show ?thesis
      by (auto simp: add_supplier_payment_def after_def insert_payment_def Let_def
          split: if_splits option.splits sum.splits prod.splits)
  qed
next
  assume "prompt_int None inp = Inr (hire_id, rest) \<and> sqlite_int hire_id \<and>
    find (\<lambda>h. h_HireID h = hire_id) (tblHire db) = Some h \<and> h_SupplierID h = Some s \<and>
    s \<noteq> 0 \<and> sqlite_int s \<and> prompt None rest = Inr (payment_date, rest1) \<and>
    prompt_float rest1 = Inr (amount, rest2) \<and> amount \<noteq> NaN"
  then show "add_supplier_payment db inp =
        (Printed ''Supplier payment recorded.'',
         db\<lparr>tblSupplierPayment := tblSupplierPayment db @
              [\<lparr>p_PaymentID =
                  next_rowid (map p_PaymentID (tblSupplierPayment db)) (seqSupplierPayment db),
                p_SupplierID = s, p_HireID = hire_id, p_PaymentDate = payment_date,
                p_Amount = amount, p_PaymentStatus = ''Pending''\<rparr>],
            seqSupplierPayment :=
              next_rowid (map p_PaymentID (tblSupplierPayment db)) (seqSupplierPayment db)\<rparr>,
         rest2)"
    by (auto simp: add_supplier_payment_def after_def insert_payment_def Let_def
        dest!: find_filter)
qed

theorem supplier_payment_follows_hire_witness:
  "prompt_int None [''2''] = Inr (2, []) \<and> sqlite_int 2 \<and>
   find (\<lambda>h. h_HireID h = 2) (tblHire demo_db) = Some (tblHire demo_db ! 1) \<and>
   h_SupplierID (tblHire demo_db ! 1) = None \<and>
   add_supplier_payment demo_db [''2''] = (Printed ''This hire has no supplier.'', demo_db, []) \<and>
   h_SupplierID (tblHire demo_db ! 0) = Some 1 \<and>
   add_supplier_payment demo_db [''1'', ''2024-02-05'', ''500''] =
     (Printed ''Supplier payment recorded.'',
      demo_db\<lparr>tblSupplierPayment :=
          [\<lparr>p_PaymentID = 1, p_SupplierID = 1, p_HireID = 1, p_PaymentDate = ''2024-02-05'',
            p_Amount = Finite 500, p_PaymentStatus = ''Pending''\<rparr>],
        seqSupplierPayment := 1\<rparr>,
      [])"
proof -
  have p2: "prompt_int None [''2''] = Inr (2, [])" by code_simp
  have s2: "sqlite_int 2" by (simp add: sqlite_int_def)
  have f2: "find (\<lambda>h. h_HireID h = 2) (tblHire demo_db) = Some (tblHire demo_db ! 1)"
    by (simp add: demo_db_def)
  have n2: "h_SupplierID (tblHire demo_db ! 1) = None" by (simp add: demo_db_def)
  note a = supplier_payment_follows_hire [THEN conjunct1, rule_format,
      OF conjI [OF p2 conjI [OF s2 conjI [OF f2 n2]]]]
  have p1: "prompt_int None [''1'', ''2024-02-05'', ''500''] = Inr (1, [''2024-02-05'', ''500''])"
    by code_simp
  have s1: "sqlite_int 1" by (simp add: sqlite_int_def)
  have f1: "find (\<lambda>h. h_HireID h = 1) (tblHire demo_db) = Some (tblHire demo_db ! 0)"
    by (simp add: demo_db_def)
  have n1: "h_SupplierID (tblHire demo_db ! 0) = Some 1" by (simp add: demo_db_def)
  have d1: "prompt None [''2024-02-05'', ''500''] = Inr (''2024-02-05'', [''500''])"
    by code_simp
  have m1: "prompt_float [''500''] = Inr (Finite 500, [])" by code_simp
  have "(1::int) \<noteq> 0" "Finite 500 \<noteq> NaN" by simp_all
  note b = supplier_payment_follows_hire [THEN conjunct2, THEN conjunct2, rule_format,
      OF conjI [OF p1 conjI [OF s1 conjI [OF f1 conjI [OF n1 conjI [OF \<open>(1::int) \<noteq> 0\<close>
        conjI [OF s1 conjI [OF d1 conjI [OF m1 \<open>Finite 500 \<noteq> NaN\<close>]]]]]]]]]
  have r: "next_rowid [] (seqSupplierPayment demo_db) = 1"
    by (simp add: demo_db_def next_rowid_def)
  have e: "tblSupplierPayment demo_db = []" by (simp add: demo_db_def)
  from a b p2 s2 f2 n2 n1 show ?thesis by (simp add: r e)
qed

text \<open>A supplier reference 0 on the hire is refused like a missing one.\<close>

lemma add_supplier_payment_zero_supplier:
  assumes "prompt_int None inp = Inr (hire_id, rest)" and "sqlite_int hire_id"
    and "find (\<lambda>h. h_HireID h = hire_id) (tblHire db) = Some h" and "h_SupplierID h = Some 0"
  shows "add_supplier_payment db inp = (Printed ''This hire has no supplier.'', db, rest)"
  using assms by (auto simp: add_supplier_payment_def after_def dest!: find_filter)

section \<open>Conversion to floating point\<close>

lemma pow2_powi: "pow2 e = 2 powi e"
  by (simp add: pow2_def power_int_def inverse_eq_divide power_divide)

lemma pow2_pos: "0 < pow2 e"
  by (simp add: pow2_powi)

lemma pow2_mono: "a \<le> b \<Longrightarrow> pow2 a \<le> pow2 b"
  by (simp add: pow2_powi power_int_increasing)

lemma pow2_nonpos: "e \<le> 0 \<Longrightarrow> pow2 e = 1 / 2 ^ nat (- e)"
  by (cases "e = 0") (simp_all add: pow2_def)

lemma bitlen_le: "n < 2 ^ k \<Longrightarrow> bitlen n \<le> int k"
proof (induction k arbitrary: n)
  case 0
  then show ?case by (subst bitlen.simps) simp
next
  case (Suc k)
  show ?case
  proof (cases "n \<le> 0")
    case True
    then show ?thesis by (subst bitlen.simps) simp
  next
    case False
    from Suc.prems have "n div 2 < 2 ^ k" by simp
    then have "bitlen (n div 2) \<le> int k" by (rule Suc.IH)
    with False show ?thesis by (subst bitlen.simps) simp
  qed
qed

lemma bitlen_1: "bitlen 1 = 1"
  by (simp add: bitlen.simps [of 1] bitlen.simps [of 0])

lemma floor_log2_of_int_le:
  assumes "n < 2 ^ k"
  shows "floor_log2 (of_int n) \<le> int k - 1"
proof -
  have "bitlen n - bitlen 1 \<le> int k - 1"
    using bitlen_le [OF assms] by (simp add: bitlen_1)
  then show ?thesis
    by (simp add: floor_log2_def Let_def)
qed

lemma round_half_even_le: "of_int (round_half_even x) \<le> x + 1"
  by (auto simp: round_half_even_def Let_def add_increasing2)

lemma round_half_even_of_int: "round_half_even (of_int n) = n"
  by (simp add: round_half_even_def Let_def)

lemma round_binary64_of_int_finite:
  assumes "\<bar>n\<bar> < 2 ^ 1000"
  shows "\<exists>r. round_binary64 (of_int n) = Finite r"
proof (cases "n = 0")
  case True
  then show ?thesis by (simp add: round_binary64_def)
next
  case False
  define a :: rat where "a = \<bar>of_int n\<bar>"
  define p where "p = max (floor_log2 a - 52) (- 1074)"
  define r where "r = of_int (round_half_even (a / pow2 p)) * pow2 p"
  have a: "a = of_int \<bar>n\<bar>" by (simp add: a_def)
  have "floor_log2 a \<le> int 1000 - 1"
    unfolding a by (rule floor_log2_of_int_le) (rule assms)
  then have "p \<le> 1000" by (simp add: p_def)
  then have "pow2 p \<le> pow2 1000" by (rule pow2_mono)
  then have p2: "pow2 p \<le> 2 ^ 1000" by (simp add: pow2_def)
  have "r \<le> (a / pow2 p + 1) * pow2 p"
    unfolding r_def using round_half_even_le [of "a / pow2 p"] pow2_pos [of p]
    by (simp add: mult_right_mono)
  also have "\<dots> = a + pow2 p"
    using pow2_pos [of p] by (simp add: field_simps)
  also have "\<dots> < 2 ^ 1000 + 2 ^ 1000"
  proof -
    have "a < 2 ^ 1000" unfolding a using assms
      by (metis of_int_less_iff of_int_numeral of_int_power)
    with p2 show ?thesis by simp
  qed
  also have "\<dots> \<le> binary64_limit" by (simp add: binary64_limit_def)
  finally have "\<not> binary64_limit \<le> r" by simp
  then show ?thesis
    using False
    by (simp add: round_binary64_def Let_def a_def [symmetric] p_def [symmetric] r_def [symmetric])
qed

lemma sqlite_int_bound: "sqlite_int n \<Longrightarrow> \<bar>n\<bar> < 2 ^ 1000"
proof -
  assume "sqlite_int n"
  then have "\<bar>n\<bar> \<le> 2 ^ 63" by (auto simp: sqlite_int_def)
  also have "(2::int) ^ 63 < 2 ^ 1000" by (rule power_strict_increasing) simp_all
  finally show ?thesis .
qed

lemma float_of_int_sqlite: "sqlite_int n \<Longrightarrow> \<exists>r. float_of_int n = Some (Finite r)"
  using round_binary64_of_int_finite [OF sqlite_int_bound, of n]
  by (auto simp: float_of_int_def)

lemma round_binary64_of_int_exact:
  assumes "\<bar>n\<bar> < 2 ^ 53"
  shows "round_binary64 (of_int n) = Finite (of_int n)"
proof (cases "n = 0")
  case True
  then show ?thesis by (simp add: round_binary64_def)
next
  case False
  define a :: rat where "a = \<bar>of_int n\<bar>"
  define p where "p = max (floor_log2 a - 52) (- 1074)"
  define r where "r = of_int (round_half_even (a / pow2 p)) * pow2 p"
  have a: "a = of_int \<bar>n\<bar>" by (simp add: a_def)
  have "floor_log2 a \<le> int 53 - 1"
    unfolding a by (rule floor_log2_of_int_le) (rule assms)
  then have p0: "p \<le> 0" by (simp add: p_def)
  define k where "k = nat (- p)"
  from p0 have pk: "pow2 p = 1 / 2 ^ k" by (simp add: pow2_nonpos k_def)
  have "a / pow2 p = of_int (\<bar>n\<bar> * 2 ^ k)" by (simp add: pk a)
  then have "round_half_even (a / pow2 p) = \<bar>n\<bar> * 2 ^ k"
    by (simp only: round_half_even_of_int)
  then have r: "r = a" by (simp add: r_def pk a)
  have "a < 2 ^ 53" unfolding a using assms
    by (metis of_int_less_iff of_int_numeral of_int_power)
  also have "(2::rat) ^ 53 \<le> binary64_limit"
    unfolding binary64_limit_def by (rule power_increasing) simp_all
  finally have "\<not> binary64_limit \<le> r" by (simp add: r)
  then have "round_binary64 (of_int n) = Finite (if 0 < (of_int n :: rat) then r else - r)"
    using False
    by (simp add: round_binary64_def Let_def a_def [symmetric] p_def [symmetric] r_def [symmetric])
  then show ?thesis by (simp add: r a_def)
qed


lemma small_int_representable: "\<bar>n\<bar> < 2 ^ 53 \<Longrightarrow> representable (of_int n)"
  by (simp add: representable_def round_binary64_of_int_exact)


section \<open>Creating hires\<close>

lemma choose_from_table_Inr:
  "choose_from_table ids inp = Inr (Inr s, rest) \<longleftrightarrow>
     (\<exists>l. inp = l # rest \<and> py_int l = Some s \<and> sqlite_int s \<and> s \<in> set ids)"
  by (auto simp: choose_from_table_def record_exists_def split: list.splits option.splits)

lemma choose_from_table_refuses:
  assumes "\<not> (\<exists>l r s. inp = l # r \<and> py_int l = Some s \<and> s \<in> set ids)"
  shows "choose_from_table ids inp = Inl EOFError \<or> choose_from_table ids inp = Inl OverflowError \<or>
    (\<exists>r. choose_from_table ids inp = Inr (Inl ''No records found.'', r)) \<or>
    (\<exists>r. choose_from_table ids inp = Inr (Inl ''Invalid choice.'', r)) \<or>
    (\<exists>r. choose_from_table ids inp = Inr (Inl ''ID does not exist.'', r))"
  using assms
  by (auto simp: choose_from_table_def record_exists_def split: list.splits option.splits)

lemma ownership_of_exists:
  "ownership_of db fleet_id = Some ow \<Longrightarrow> record_exists (map f_FleetID (tblFleet db)) fleet_id"
proof -
  assume "ownership_of db fleet_id = Some ow"
  then obtain r rs where "filter (\<lambda>r. f_FleetID r = fleet_id) (tblFleet db) = r # rs"
    by (auto simp: ownership_of_def split: list.splits)
  then have "r \<in> set (filter (\<lambda>r. f_FleetID r = fleet_id) (tblFleet db))" by simp
  then show ?thesis by (auto simp: record_exists_def)
qed

lemma hire_supplier_rented_in:
  assumes "ownership_of db fleet_id = Some ''Rented-in''"
  shows "hire_supplier db fleet_id inp =
    ask_choice (choose_from_table (tblSupplier db) inp) (\<lambda>supplier_id inp. Answered (Some supplier_id) inp)"
  using assms by (auto simp: hire_supplier_def ownership_of_def Let_def split: list.splits)

lemma hire_supplier_Answered_rented_in:
  assumes "ownership_of db fleet_id = Some ''Rented-in''"
    and "hire_supplier db fleet_id inp = Answered sp rest"
  shows "\<exists>s. sp = Some s \<and> s \<in> set (tblSupplier db) \<and> sqlite_int s"
  using assms(2) unfolding hire_supplier_rented_in [OF assms(1)]
  by (auto simp: ask_choice_def choose_from_table_Inr split: sum.splits prod.splits)

lemma ask_hire_Answered:
  assumes "ask_hire db inp = Answered a rest"
  shows "(\<exists>i1. prompt None inp = Inr (a_fleet_id a, i1)) \<and>
    record_exists (map f_FleetID (tblFleet db)) (a_fleet_id a) \<and>
    a_driver_id a \<in> set (tblDriver db) \<and> sqlite_int (a_driver_id a) \<and>
    a_customer_id a \<in> set (tblCustomer db) \<and> sqlite_int (a_customer_id a) \<and>
    (\<exists>i3 i4. hire_supplier db (a_fleet_id a) i3 = Answered (a_supplier_id a) i4)"
  using assms
  by (auto simp: ask_hire_def ask_def ask_choice_def choose_from_table_Inr
      split: sum.splits prod.splits asked.splits if_splits) blast

lemma add_hire_persisted:
  assumes "add_hire db inp = (out, db', rest)" "db' \<noteq> db"
  shows "\<exists>a total_amount.
    ask_hire db inp = Answered a rest \<and>
    float_mul_int (a_rate a) (a_quantity a) = Some total_amount \<and>
    out = HireCreated total_amount \<and>
    insert_hire db (a_fleet_id a) (a_driver_id a) (a_customer_id a) (a_supplier_id a)
      (a_hire_type a) (a_start_date a) (if a_end_date a = [] then None else Some (a_end_date a))
      (a_rate a) (a_quantity a) total_amount ''Open'' = Inr db'"
  using assms
  by (auto simp: add_hire_def split: asked.splits option.splits sum.splits)

lemma insert_hire_Inr:
  assumes "insert_hire db f d c s t sd ed r q tot st = Inr db'"
  shows "db' = db\<lparr>tblHire := tblHire db @
      [\<lparr>h_HireID = next_rowid (map h_HireID (tblHire db)) (seqHire db), h_FleetID = f,
        h_DriverID = d, h_CustomerID = c, h_SupplierID = s, h_HireType = t,
        h_StartDate = sd, h_EndDate = ed, h_Rate = r, h_Quantity = q, h_TotalAmount = tot,
        h_Status = st\<rparr>],
      seqHire := next_rowid (map h_HireID (tblHire db)) (seqHire db)\<rparr> \<and>
    t \<in> set valid_hire_types \<and> r \<noteq> NaN \<and> tot \<noteq> NaN \<and> sqlite_int q \<and> sqlite_int d \<and>
    sqlite_int c \<and> (case s of None \<Rightarrow> True | Some x \<Rightarrow> sqlite_int x)"
  using assms by (auto simp: insert_hire_def Let_def split: if_splits)

text \<open>
  C2.  For an asset whose ownership is \<open>Rented-in\<close>: when the driver and the customer
  have been chosen and what is typed for the supplier is not the key of a supplier (nothing,
  no number, an unknown key, or no supplier exists at all), \<open>add_hire\<close> ends with the
  refusal of the supplier choice (or the exception of the read) and the database is
  unchanged.  Whenever \<open>add_hire\<close> changes the database for such an asset, the new hire
  carries the key of an existing supplier.
\<close>

theorem rented_in_requires_supplier:
  "(prompt None inp = Inr (fleet_id, inp1) \<and>
    ownership_of db fleet_id = Some ''Rented-in'' \<and>
    choose_from_table (tblDriver db) inp1 = Inr (Inr driver_id, inp2) \<and>
    choose_from_table (tblCustomer db) inp2 = Inr (Inr customer_id, inp3) \<and>
    \<not> (\<exists>l r s. inp3 = l # r \<and> py_int l = Some s \<and> s \<in> set (tblSupplier db)) \<longrightarrow>
      (\<exists>out rest. add_hire db inp = (out, db, rest) \<and>
         out \<in> {Printed ''No records found.'', Printed ''Invalid choice.'',
                 Printed ''ID does not exist.'', Raised EOFError, Raised OverflowError})) \<and>
   (\<forall>out db' rest.
      prompt None inp = Inr (fleet_id, inp1) \<and>
      ownership_of db fleet_id = Some ''Rented-in'' \<and>
      add_hire db inp = (out, db', rest) \<and> db' \<noteq> db \<longrightarrow>
        (\<exists>h s. tblHire db' = tblHire db @ [h] \<and> h_FleetID h = fleet_id \<and>
           h_SupplierID h = Some s \<and> s \<in> set (tblSupplier db)))"
proof (intro conjI impI allI)
  assume a: "prompt None inp = Inr (fleet_id, inp1) \<and>
    ownership_of db fleet_id = Some ''Rented-in'' \<and>
    choose_from_table (tblDriver db) inp1 = Inr (Inr driver_id, inp2) \<and>
    choose_from_table (tblCustomer db) inp2 = Inr (Inr customer_id, inp3) \<and>
    \<not> (\<exists>l r s. inp3 = l # r \<and> py_int l = Some s \<and> s \<in> set (tblSupplier db))"
  then have ex: "record_exists (map f_FleetID (tblFleet db)) fleet_id"
    by (auto dest: ownership_of_exists)
  from a have sup: "hire_supplier db fleet_id inp3 =
      ask_choice (choose_from_table (tblSupplier db) inp3) (\<lambda>supplier_id inp. Answered (Some supplier_id) inp)"
    by (simp add: hire_supplier_rented_in)
  from a have "\<not> (\<exists>l r s. inp3 = l # r \<and> py_int l = Some s \<and> s \<in> set (tblSupplier db))"
    by simp
  from choose_from_table_refuses [OF this] a ex sup
  show "\<exists>out rest. add_hire db inp = (out, db, rest) \<and>
         out \<in> {Printed ''No records found.'', Printed ''Invalid choice.'',
                 Printed ''ID does not exist.'', Raised EOFError, Raised OverflowError}"
    by (auto simp: add_hire_def ask_hire_def ask_def ask_choice_def)
next
  fix out db' rest
  assume a: "prompt None inp = Inr (fleet_id, inp1) \<and>
      ownership_of db fleet_id = Some ''Rented-in'' \<and>
      add_hire db inp = (out, db', rest) \<and> db' \<noteq> db"
  then have "add_hire db inp = (out, db', rest)" "db' \<noteq> db" by simp_all
  from add_hire_persisted [OF this] obtain ans tot where ans: "ask_hire db inp = Answered ans rest"
    and ins: "insert_hire db (a_fleet_id ans) (a_driver_id ans) (a_customer_id ans)
      (a_supplier_id ans) (a_hire_type ans) (a_start_date ans)
      (if a_end_date ans = [] then None else Some (a_end_date ans))
      (a_rate ans) (a_quantity ans) tot ''Open'' = Inr db'"
    by blast
  from ask_hire_Answered [OF ans] a have fl: "a_fleet_id ans = fleet_id"
    and "\<exists>i3 i4. hire_supplier db fleet_id i3 = Answered (a_supplier_id ans) i4"
    by auto
  with a obtain s where s: "a_supplier_id ans = Some s" "s \<in> set (tblSupplier db)"
    using hire_supplier_Answered_rented_in [of db fleet_id] by blast
  from insert_hire_Inr [OF ins] s fl
  show "\<exists>h s. tblHire db' = tblHire db @ [h] \<and> h_FleetID h = fleet_id \<and>
           h_SupplierID h = Some s \<and> s \<in> set (tblSupplier db)"
    by auto
qed

theorem rented_in_requires_supplier_witness:
  "prompt None [''F1'', ''1'', ''1'', ''7''] = Inr (''F1'', [''1'', ''1'', ''7'']) \<and>
   ownership_of demo_db ''F1'' = Some ''Rented-in'' \<and>
   choose_from_table (tblDriver demo_db) [''1'', ''1'', ''7''] = Inr (Inr 1, [''1'', ''7'']) \<and>
   choose_from_table (tblCustomer demo_db) [''1'', ''7''] = Inr (Inr 1, [''7'']) \<and>
   py_int ''7'' = Some 7 \<and> 7 \<notin> set (tblSupplier demo_db) \<and>
   (\<exists>out rest. add_hire demo_db [''F1'', ''1'', ''1'', ''7''] = (out, demo_db, rest) \<and>
      out \<in> {Printed ''No records found.'', Printed ''Invalid choice.'',
              Printed ''ID does not exist.'', Raised EOFError, Raised OverflowError})"
proof -
  have 1: "prompt None [''F1'', ''1'', ''1'', ''7''] = Inr (''F1'', [''1'', ''1'', ''7''])"
    by code_simp
  have 2: "ownership_of demo_db ''F1'' = Some ''Rented-in''" by code_simp
  have 3: "choose_from_table (tblDriver demo_db) [''1'', ''1'', ''7''] = Inr (Inr 1, [''1'', ''7''])"
    by code_simp
  have 4: "choose_from_table (tblCustomer demo_db) [''1'', ''7''] = Inr (Inr 1, [''7''])"
    by code_simp
  have 5: "py_int ''7'' = Some 7" by code_simp
  have 6: "7 \<notin> set (tblSupplier demo_db)" by (simp add: demo_db_def)
  have 7: "\<not> (\<exists>l r s. [''7''] = l # r \<and> py_int l = Some s \<and> s \<in> set (tblSupplier demo_db))"
    using 5 6 by auto
  from rented_in_requires_supplier [THEN conjunct1, rule_format,
      OF conjI [OF 1 conjI [OF 2 conjI [OF 3 conjI [OF 4 7]]]]] 1 2 3 4 5 6
  show ?thesis by blast
qed

text \<open>
  C5.  When the questions of \<open>add_hire\<close> have been answered and the hire type is not one
  of \<open>Daily\<close>, \<open>Weekly\<close>, \<open>Monthly\<close>, \<open>Trip\<close>, the \<open>INSERT\<close> fails: the
  \<open>CHECK\<close> constraint raises \<open>IntegrityError\<close> (or a parameter outside 64 bits raises
  \<open>OverflowError\<close> before it), and the database is unchanged.  Whenever \<open>add_hire\<close>
  changes the database, the new hire has one of the four types.
\<close>

theorem hire_type_checked:
  "(ask_hire db inp = Answered a rest \<and> a_hire_type a \<notin> set valid_hire_types \<longrightarrow>
      add_hire db inp = (Raised IntegrityError, db, []) \<or>
      add_hire db inp = (Raised OverflowError, db, [])) \<and>
   (ask_hire db inp = Answered a rest \<and> a_hire_type a \<notin> set valid_hire_types \<and>
    sqlite_int (a_quantity a) \<and>
    (case a_supplier_id a of None \<Rightarrow> True | Some s \<Rightarrow> sqlite_int s) \<longrightarrow>
      add_hire db inp = (Raised IntegrityError, db, [])) \<and>
   (\<forall>out db' rest'.
      add_hire db inp = (out, db', rest') \<and> db' \<noteq> db \<longrightarrow>
        (\<exists>h. tblHire db' = tblHire db @ [h] \<and> h_HireType h \<in> set valid_hire_types))"
proof (intro conjI impI allI)
  assume "ask_hire db inp = Answered a rest \<and> a_hire_type a \<notin> set valid_hire_types"
  then show "add_hire db inp = (Raised IntegrityError, db, []) \<or>
      add_hire db inp = (Raised OverflowError, db, [])"
    by (auto simp: add_hire_def insert_hire_def split: option.splits)
next
  assume a: "ask_hire db inp = Answered a rest \<and> a_hire_type a \<notin> set valid_hire_types \<and>
    sqlite_int (a_quantity a) \<and>
    (case a_supplier_id a of None \<Rightarrow> True | Some s \<Rightarrow> sqlite_int s)"
  then obtain fq where "float_of_int (a_quantity a) = Some (Finite fq)"
    using float_of_int_sqlite [of "a_quantity a"] by blast
  then have "float_mul_int (a_rate a) (a_quantity a) = Some (float_mul (a_rate a) (Finite fq))"
    by (simp add: float_mul_int_def)
  moreover from a have "sqlite_int (a_driver_id a)" "sqlite_int (a_customer_id a)"
    using ask_hire_Answered [of db inp a rest] by simp_all
  ultimately show "add_hire db inp = (Raised IntegrityError, db, [])"
    using a by (simp add: add_hire_def insert_hire_def)
next
  fix out db' rest'
  assume "add_hire db inp = (out, db', rest') \<and> db' \<noteq> db"
  then have "add_hire db inp = (out, db', rest')" "db' \<noteq> db" by simp_all
  from add_hire_persisted [OF this] obtain ans :: hire_answers and tot where
    "insert_hire db (a_fleet_id ans) (a_driver_id ans) (a_customer_id ans)
      (a_supplier_id ans) (a_hire_type ans) (a_start_date ans)
      (if a_end_date ans = [] then None else Some (a_end_date ans))
      (a_rate ans) (a_quantity ans) tot ''Open'' = Inr db'"
    by blast
  from insert_hire_Inr [OF this]
  show "\<exists>h. tblHire db' = tblHire db @ [h] \<and> h_HireType h \<in> set valid_hire_types"
    by auto
qed

theorem hire_type_checked_witness:
  "ask_hire demo_db [''F2'', ''1'', ''1'', '''', ''Hourly'', ''2024-03-01'', '''', ''100'', ''2''] =
     Answered \<lparr>a_fleet_id = ''F2'', a_driver_id = 1, a_customer_id = 1, a_supplier_id = None,
       a_hire_type = ''Hourly'', a_start_date = ''2024-03-01'', a_end_date = '''',
       a_rate = Finite 100, a_quantity = 2\<rparr> [] \<and>
   ''Hourly'' \<notin> set valid_hire_types \<and> sqlite_int 2 \<and>
   add_hire demo_db [''F2'', ''1'', ''1'', '''', ''Hourly'', ''2024-03-01'', '''', ''100'', ''2''] =
     (Raised IntegrityError, demo_db, [])"
proof -
  let ?a = "\<lparr>a_fleet_id = ''F2'', a_driver_id = 1, a_customer_id = 1, a_supplier_id = None,
       a_hire_type = ''Hourly'', a_start_date = ''2024-03-01'', a_end_date = '''',
       a_rate = Finite 100, a_quantity = 2\<rparr>"
  have 1: "ask_hire demo_db
      [''F2'', ''1'', ''1'', '''', ''Hourly'', ''2024-03-01'', '''', ''100'', ''2''] = Answered ?a []"
    by code_simp
  have 2: "a_hire_type ?a \<notin> set valid_hire_types" by (simp add: valid_hire_types_def)
  have 3: "sqlite_int (a_quantity ?a)" by (simp add: sqlite_int_def)
  have 4: "case a_supplier_id ?a of None \<Rightarrow> True | Some s \<Rightarrow> sqlite_int s" by simp
  from hire_type_checked [THEN conjunct2, THEN conjunct1, rule_format,
      OF conjI [OF 1 conjI [OF 2 conjI [OF 3 4]]]] 1 2 3
  show ?thesis by simp
qed

text \<open>
  C4.  The code at a failing input: for the owned asset \<open>F2\<close> the supplier key 999 is
  typed, no supplier has that key, and the hire is stored with it.
\<close>

theorem owned_unknown_supplier_persisted:
  "ownership_of demo_db ''F2'' = Some ''Owned'' \<and> 999 \<notin> set (tblSupplier demo_db) \<and>
   add_hire demo_db [''F2'', ''1'', ''1'', ''999'', ''Daily'', ''2024-03-01'', '''', ''100'', ''2''] =
     (HireCreated (Finite 200),
      demo_db\<lparr>tblHire := tblHire demo_db @
          [\<lparr>h_HireID = 3, h_FleetID = ''F2'', h_DriverID = 1, h_CustomerID = 1,
            h_SupplierID = Some 999, h_HireType = ''Daily'', h_StartDate = ''2024-03-01'',
            h_EndDate = None, h_Rate = Finite 100, h_Quantity = 2, h_TotalAmount = Finite 200,
            h_Status = ''Open''\<rparr>],
        seqHire := 3\<rparr>, [])"
  by code_simp

section \<open>The total amount\<close>

text \<open>
  C6, as the code has it.  The total stored with a new hire is the floating-point product
  of the rate and the quantity, the one that is reported; it is the exact product whenever
  the quantity and the exact product are binary64 values (as for the rate 150.00 and the
  quantity 3, with the total 450; every quantity below \<open>2^53\<close> in magnitude is one, by
  \<open>small_int_representable\<close>).
\<close>

theorem total_is_float_product:
  assumes "add_hire db inp = (out, db', rest)" and "db' \<noteq> db"
  shows "\<exists>h. tblHire db' = tblHire db @ [h] \<and> out = HireCreated (h_TotalAmount h) \<and>
    float_mul_int (h_Rate h) (h_Quantity h) = Some (h_TotalAmount h) \<and>
    (\<forall>r. h_Rate h = Finite r \<and> representable (of_int (h_Quantity h)) \<and>
         representable (r * of_int (h_Quantity h)) \<longrightarrow>
         h_TotalAmount h = Finite (r * of_int (h_Quantity h)))"
proof -
  from add_hire_persisted [OF assms] obtain a :: hire_answers and tot
    where m: "float_mul_int (a_rate a) (a_quantity a) = Some tot"
      and o: "out = HireCreated tot"
      and i: "insert_hire db (a_fleet_id a) (a_driver_id a) (a_customer_id a) (a_supplier_id a)
        (a_hire_type a) (a_start_date a) (if a_end_date a = [] then None else Some (a_end_date a))
        (a_rate a) (a_quantity a) tot ''Open'' = Inr db'"
    by blast
  let ?h = "\<lparr>h_HireID = next_rowid (map h_HireID (tblHire db)) (seqHire db),
    h_FleetID = a_fleet_id a, h_DriverID = a_driver_id a, h_CustomerID = a_customer_id a,
    h_SupplierID = a_supplier_id a, h_HireType = a_hire_type a, h_StartDate = a_start_date a,
    h_EndDate = (if a_end_date a = [] then None else Some (a_end_date a)), h_Rate = a_rate a,
    h_Quantity = a_quantity a, h_TotalAmount = tot, h_Status = ''Open''\<rparr>"
  from insert_hire_Inr [OF i] have t: "tblHire db' = tblHire db @ [?h]" by simp
  have e: "tot = Finite (r * of_int (a_quantity a))"
    if "a_rate a = Finite r" "representable (of_int (a_quantity a))"
      "representable (r * of_int (a_quantity a))"
    for r
    using m that by (simp add: float_mul_int_def float_of_int_def representable_def)
  show ?thesis
    by (rule exI [of _ ?h]) (use t o m e in auto)
qed

theorem total_is_float_product_witness:
  "add_hire demo_db [''F2'', ''1'', ''1'', '''', ''Daily'', ''2024-03-01'', '''', ''150.00'', ''3''] =
     (HireCreated (Finite 450),
      demo_db\<lparr>tblHire := tblHire demo_db @
          [\<lparr>h_HireID = 3, h_FleetID = ''F2'', h_DriverID = 1, h_CustomerID = 1,
            h_SupplierID = None, h_HireType = ''Daily'', h_StartDate = ''2024-03-01'',
            h_EndDate = None, h_Rate = Finite 150, h_Quantity = 3, h_TotalAmount = Finite 450,
            h_Status = ''Open''\<rparr>],
        seqHire := 3\<rparr>, []) \<and>
   representable (150 * 3) \<and>
   (\<exists>h :: hire. float_mul_int (h_Rate h) (h_Quantity h) = Some (h_TotalAmount h) \<and>
      h_Rate h = Finite 150 \<and> h_Quantity h = 3 \<and> h_TotalAmount h = Finite (150 * 3))"
proof -
  let ?inp = "[''F2'', ''1'', ''1'', '''', ''Daily'', ''2024-03-01'', '''', ''150.00'', ''3'']"
  let ?h = "\<lparr>h_HireID = 3, h_FleetID = ''F2'', h_DriverID = 1, h_CustomerID = 1,
            h_SupplierID = None, h_HireType = ''Daily'', h_StartDate = ''2024-03-01'',
            h_EndDate = None, h_Rate = Finite 150, h_Quantity = 3, h_TotalAmount = Finite 450,
            h_Status = ''Open''\<rparr>"
  let ?db = "demo_db\<lparr>tblHire := tblHire demo_db @ [?h], seqHire := 3\<rparr>"
  have 1: "add_hire demo_db ?inp = (HireCreated (Finite 450), ?db, [])" by code_simp
  have 2: "?db \<noteq> demo_db"
  proof
    assume "?db = demo_db"
    then have "seqHire ?db = seqHire demo_db" by (rule arg_cong)
    then show False by (simp add: demo_db_def)
  qed
  have 3: "representable (150 * 3)" by code_simp
  have 4: "representable (of_int 3)" using small_int_representable [of 3] by simp
  from total_is_float_product [OF 1 2] obtain h where
    h: "tblHire ?db = tblHire demo_db @ [h]"
      "float_mul_int (h_Rate h) (h_Quantity h) = Some (h_TotalAmount h)"
      "\<forall>r. h_Rate h = Finite r \<and> representable (of_int (h_Quantity h)) \<and>
         representable (r * of_int (h_Quantity h)) \<longrightarrow>
         h_TotalAmount h = Finite (r * of_int (h_Quantity h))"
    by blast
  from h(1) have hh: "h = ?h" by simp
  then have r: "h_Rate h = Finite 150" and q: "h_Quantity h = 3" by simp_all
  from h(3) [rule_format, of 150] r q 3 4 have "h_TotalAmount h = Finite (150 * 3)" by simp
  with h(2) r q 1 3 show ?thesis by blast
qed

text \<open>
  C6 as stated fails: for the rate \<open>0.1\<close> and the quantity 3 the stored total is
  \<open>0.30000000000000004\<close>, which is neither the stored rate times 3 nor 0.1 times 3.
\<close>

theorem total_not_exact_counterexample:
  "add_hire demo_db [''F2'', ''1'', ''1'', '''', ''Daily'', ''2024-03-01'', '''', ''0.1'', ''3''] =
     (HireCreated (Finite (1351079888211149 / 4503599627370496)),
      demo_db\<lparr>tblHire := tblHire demo_db @
          [\<lparr>h_HireID = 3, h_FleetID = ''F2'', h_DriverID = 1, h_CustomerID = 1,
            h_SupplierID = None, h_HireType = ''Daily'', h_StartDate = ''2024-03-01'',
            h_EndDate = None, h_Rate = Finite (3602879701896397 / 36028797018963968),
            h_Quantity = 3, h_TotalAmount = Finite (1351079888211149 / 4503599627370496),
            h_Status = ''Open''\<rparr>],
        seqHire := 3\<rparr>, []) \<and>
   (1351079888211149 / 4503599627370496 :: rat) \<noteq> 3602879701896397 / 36028797018963968 * 3 \<and>
   (1351079888211149 / 4503599627370496 :: rat) \<noteq> 1 / 10 * 3"
  by code_simp




section \<open>Searching hires\<close>

lemma starts_with_iff: "starts_with v s \<longleftrightarrow> (\<exists>b. s = v @ b)"
  by (induction v s rule: starts_with.induct) auto

lemma contains_iff: "contains v s \<longleftrightarrow> (\<exists>a b. s = a @ v @ b)"
proof (induction s)
  case Nil
  then show ?case by auto
next
  case (Cons c cs)
  show ?case
  proof
    assume "contains v (c # cs)"
    then consider "starts_with v (c # cs)" | "contains v cs" by auto
    then show "\<exists>a b. c # cs = a @ v @ b"
    proof cases
      case 1
      then obtain b where "c # cs = v @ b" by (auto simp: starts_with_iff)
      then have "c # cs = [] @ v @ b" by simp
      then show ?thesis by blast
    next
      case 2
      with Cons obtain a b where "cs = a @ v @ b" by auto
      then have "c # cs = (c # a) @ v @ b" by simp
      then show ?thesis by blast
    qed
  next
    assume "\<exists>a b. c # cs = a @ v @ b"
    then obtain a b where ab: "c # cs = a @ v @ b" by blast
    show "contains v (c # cs)"
    proof (cases a)
      case Nil
      with ab have "starts_with v (c # cs)" by (auto simp: starts_with_iff)
      then show ?thesis by simp
    next
      case (Cons x a')
      with ab have "cs = a' @ v @ b" by simp
      with Cons.IH have "contains v cs" by blast
      then show ?thesis by simp
    qed
  qed
qed



lemma like_percent_Cons:
  "like (CHR ''%'' # p) (c # cs) = (like p (c # cs) \<or> like (CHR ''%'' # p) cs)"
  by simp





end
